theory Spec2Isabelle
  imports Main "HOL-Library.AList"
begin

section \<open>Strings and dictionaries of the host language\<close>

text \<open>
  The simulator is written in Python.  A Python \<open>str\<close> is modelled as a HOL
  \<^typ>\<open>string\<close>, each \<^typ>\<open>char\<close> standing for one code point in the range 0..255.
  A Python \<open>dict\<close> is modelled as an association list with distinct keys, kept in
  insertion order: \<open>d[k] = v\<close> is \<^const>\<open>AList.update\<close>, \<open>d.pop(k, None)\<close> is
  \<^const>\<open>AList.delete\<close>, \<open>k in d\<close> and \<open>d[k]\<close> go through \<^const>\<open>map_of\<close>.
\<close>

definition dict_get :: "('k \<times> 'v) list \<Rightarrow> 'k \<Rightarrow> 'v \<Rightarrow> 'v" where
  \<comment> \<open>\<open>d.get(k, dflt)\<close>\<close>
  "dict_get d k dflt = (case map_of d k of None \<Rightarrow> dflt | Some v \<Rightarrow> v)"

definition isspace :: "char \<Rightarrow> bool" where
  \<comment> \<open>\<open>str.isspace\<close> on one code point below 256; the same set is what \<open>strip()\<close>,
      \<open>split()\<close> and the regular expression class \<open>\s\<close> treat as whitespace\<close>
  "isspace c = (c \<in> set [CHR 0x09, CHR 0x0A, CHR 0x0B, CHR 0x0C, CHR 0x0D,
                         CHR 0x1C, CHR 0x1D, CHR 0x1E, CHR 0x1F, CHR 0x20,
                         CHR 0x85, CHR 0xA0])"

definition lower_char :: "char \<Rightarrow> char" where
  \<comment> \<open>\<open>str.lower\<close> on one code point below 256: A-Z and the Latin-1 capitals\<close>
  "lower_char c = (let n = (of_char c :: nat) in
     if (65 \<le> n \<and> n \<le> 90) \<or> (192 \<le> n \<and> n \<le> 222 \<and> n \<noteq> 215)
     then char_of (n + 32) else c)"

definition lower :: "string \<Rightarrow> string" where
  "lower s = map lower_char s"

definition strip :: "string \<Rightarrow> string" where
  \<comment> \<open>\<open>s.strip()\<close>\<close>
  "strip s = rev (dropWhile isspace (rev (dropWhile isspace s)))"

definition replace_char :: "string \<Rightarrow> char \<Rightarrow> string \<Rightarrow> string" where
  \<comment> \<open>\<open>s.replace(old, new)\<close> for a one-character \<open>old\<close>\<close>
  "replace_char s old new = concat (map (\<lambda>c. if c = old then new else [c]) s)"

fun split_from :: "string \<Rightarrow> string \<Rightarrow> string list" where
  \<comment> \<open>\<open>s.split()\<close> with no separator, scanning the rest of the text with the token read
      so far: runs of whitespace separate the tokens, and no token is empty\<close>
  "split_from cur [] = (if cur = [] then [] else [cur])"
| "split_from cur (c # cs) =
     (if isspace c then (if cur = [] then split_from [] cs else cur # split_from [] cs)
      else split_from (cur @ [c]) cs)"

definition str_split :: "string \<Rightarrow> string list" where
  "str_split s = split_from [] s"

definition is_linebreak :: "char \<Rightarrow> bool" where
  \<comment> \<open>the line boundaries of \<open>str.splitlines\<close> below code point 256\<close>
  "is_linebreak c = (c \<in> set [CHR 0x0A, CHR 0x0B, CHR 0x0C, CHR 0x0D,
                             CHR 0x1C, CHR 0x1D, CHR 0x1E, CHR 0x85])"

fun splitlines_from :: "string \<Rightarrow> string \<Rightarrow> string list" where
  \<comment> \<open>\<open>s.splitlines()\<close>, scanning the rest of the text with the line read so far; a
      carriage return followed by a line feed is one boundary, and no empty last line
      is produced\<close>
  "splitlines_from cur [] = (if cur = [] then [] else [cur])"
| "splitlines_from cur [c] =
     (if is_linebreak c then [cur] else [cur @ [c]])"
| "splitlines_from cur (c # d # cs) =
     (if c = CHR 0x0D \<and> d = CHR 0x0A then cur # splitlines_from [] cs
      else if is_linebreak c then cur # splitlines_from [] (d # cs)
      else splitlines_from (cur @ [c]) (d # cs))"

definition splitlines :: "string \<Rightarrow> string list" where
  "splitlines s = splitlines_from [] s"

definition startswith :: "string \<Rightarrow> string \<Rightarrow> bool" where
  "startswith s pre = (take (length pre) s = pre)"

fun str_nat :: "nat \<Rightarrow> string" where
  \<comment> \<open>the decimal digits of a natural number\<close>
  "str_nat n = (if n < 10 then [char_of (48 + n)]
                else str_nat (n div 10) @ [char_of (48 + n mod 10)])"

declare str_nat.simps [simp del]

definition str_int :: "int \<Rightarrow> string" where
  \<comment> \<open>\<open>str(i)\<close>, which is what an f-string prints for an integer\<close>
  "str_int i = (if i < 0 then CHR ''-'' # str_nat (nat (- i)) else str_nat (nat i))"

definition hex_digit :: "nat \<Rightarrow> char" where
  "hex_digit n = (if n < 10 then char_of (48 + n) else char_of (87 + n))"

definition repr_char :: "char \<Rightarrow> char \<Rightarrow> string" where
  \<comment> \<open>one character of \<open>repr(s)\<close> inside the quotes \<open>q\<close>\<close>
  "repr_char q c = (let n = (of_char c :: nat) in
     if c = q \<or> c = CHR 0x5C then [CHR 0x5C, c]
     else if c = CHR 0x09 then [CHR 0x5C, CHR ''t'']
     else if c = CHR 0x0A then [CHR 0x5C, CHR ''n'']
     else if c = CHR 0x0D then [CHR 0x5C, CHR ''r'']
     else if n < 32 \<or> (127 \<le> n \<and> n \<le> 160) \<or> n = 173
       then [CHR 0x5C, CHR ''x'', hex_digit (n div 16), hex_digit (n mod 16)]
     else [c])"

definition repr_str :: "string \<Rightarrow> string" where
  \<comment> \<open>\<open>repr(s)\<close> of a \<open>str\<close>: single quotes unless the text holds a single quote and no
      double quote\<close>
  "repr_str s = (let q = (if CHR 0x27 \<in> set s \<and> CHR 0x22 \<notin> set s then CHR 0x22 else CHR 0x27)
                 in [q] @ concat (map (repr_char q) s) @ [q])"

fun join :: "string \<Rightarrow> string list \<Rightarrow> string" where
  "join sep [] = []"
| "join sep [x] = x"
| "join sep (x # y # ys) = x @ sep @ join sep (y # ys)"

definition repr_tuple :: "string list \<Rightarrow> string" where
  \<comment> \<open>\<open>repr(t)\<close> of a tuple of \<open>str\<close>; a tuple of one element prints a trailing comma\<close>
  "repr_tuple xs =
     [CHR 0x28] @ join '', '' (map repr_str xs) @ (if length xs = 1 then '','' else []) @ [CHR 0x29]"

section \<open>The tape\<close>

definition BLANK :: string where
  "BLANK = ''_''"

definition MOVE :: "(string \<times> int) list" where
  "MOVE = [(''l'', -1), (''r'', 1), (''*'', 0), (''s'', 0), (''n'', 0)]"

datatype error = TMParseError string | ValueError string | IndexError

record Tape =
  blank :: string
  cells :: "(int \<times> string) list"
  head :: int

definition Tape_init :: "string \<Rightarrow> Tape" where
  "Tape_init b = \<lparr>blank = b, cells = [], head = 0\<rparr>"

definition Tape_reset :: "Tape \<Rightarrow> Tape" where
  "Tape_reset t = t\<lparr>cells := [], head := 0\<rparr>"

definition Tape_read :: "Tape \<Rightarrow> string" where
  "Tape_read t = dict_get (cells t) (head t) (blank t)"

definition Tape_write :: "Tape \<Rightarrow> string \<Rightarrow> Tape" where
  "Tape_write t s =
     (if s = blank t then t\<lparr>cells := AList.delete (head t) (cells t)\<rparr>
      else t\<lparr>cells := AList.update (head t) s (cells t)\<rparr>)"

definition Tape_move :: "Tape \<Rightarrow> string \<Rightarrow> error option \<times> Tape" where
  \<comment> \<open>the tape is returned in both cases: a raise leaves it as it was\<close>
  "Tape_move t m0 =
     (let m = lower m0 in
      case map_of MOVE m of
        None \<Rightarrow> (Some (ValueError (''Invalid move '' @ [CHR 0x27] @ m @ [CHR 0x27] @ ''. Expected l/r/*'')), t)
      | Some d \<Rightarrow> (None, t\<lparr>head := head t + d\<rparr>))"

fun load_cells :: "string \<Rightarrow> int \<Rightarrow> string \<Rightarrow> (int \<times> string) list \<Rightarrow> (int \<times> string) list" where
  \<comment> \<open>the loop \<open>for i, ch in enumerate(s)\<close> of \<open>load_leftmost\<close>, from index \<open>i\<close> on\<close>
  "load_cells b i [] cs = cs"
| "load_cells b i (ch # rest) cs =
     (if [ch] = b then load_cells b (i + 1) rest cs
      else load_cells b (i + 1) rest (AList.update i [ch] cs))"

definition load_leftmost :: "Tape \<Rightarrow> string \<Rightarrow> Tape" where
  "load_leftmost t s0 =
     (let s1 = replace_char s0 (CHR '' '') (blank t);
          s = (if s1 = [] then blank t else s1);
          t1 = (Tape_reset t)\<lparr>head := 0\<rparr>
      in t1\<lparr>cells := load_cells (blank t1) 0 s (cells t1)\<rparr>)"

section \<open>Instructions and the rule store\<close>

text \<open>
  The fields \<open>read\<close>, \<open>write\<close> and \<open>move\<close> of the source's \<open>Instruction\<close> are named
  \<open>ins_read\<close>, \<open>ins_write\<close> and \<open>ins_move\<close> here (\<open>write\<close> is a reserved word of the
  theory language), and the fields \<open>tapes\<close> and \<open>blank\<close> of \<open>Program\<close> are \<open>p_tapes\<close> and
  \<open>p_blank\<close>.  A tuple of strings is a list of strings.
\<close>

record Instruction =
  cur_state :: string
  ins_read :: "string list"
  ins_write :: "string list"
  ins_move :: "string list"
  next_state :: string
  breakpoint :: bool
  line_no :: int

type_synonym rules_1 = "(string \<times> (string \<times> Instruction list) list) list"
type_synonym rules_2 = "(string \<times> ((string \<times> string) \<times> Instruction list) list) list"

record Program =
  p_tapes :: int
  p_blank :: string
  map_1 :: rules_1
  map_2 :: rules_2
  source_text :: string

definition Program_init :: "int \<Rightarrow> error + Program" where
  "Program_init n =
     (if n \<noteq> 1 \<and> n \<noteq> 2 then Inl (ValueError ''tapes must be 1 or 2'')
      else Inr \<lparr>p_tapes = n, p_blank = BLANK, map_1 = [], map_2 = [], source_text = []\<rparr>)"

definition clear :: "Program \<Rightarrow> Program" where
  "clear p = p\<lparr>map_1 := [], map_2 := []\<rparr>"

definition is_halt_state :: "string \<Rightarrow> bool" where
  "is_halt_state st = startswith (lower (strip st)) ''halt''"

definition strip_comment :: "string \<Rightarrow> string" where
  \<comment> \<open>\<open>line.split(";", 1)[0].strip()\<close>\<close>
  "strip_comment line = strip (takeWhile (\<lambda>c. c \<noteq> CHR '';'') line)"

definition setdefault :: "('k \<times> 'v) list \<Rightarrow> 'k \<Rightarrow> 'v \<Rightarrow> 'v \<times> ('k \<times> 'v) list" where
  \<comment> \<open>\<open>d.setdefault(k, dflt)\<close>: the value returned, and the dictionary afterwards\<close>
  "setdefault d k dflt =
     (case map_of d k of Some v \<Rightarrow> (v, d) | None \<Rightarrow> (dflt, AList.update k dflt d))"

definition add :: "Program \<Rightarrow> Instruction \<Rightarrow> error option \<times> Program" where
  \<comment> \<open>The outer \<open>setdefault\<close> has run when \<open>ins.read[0]\<close> or \<open>ins.read[1]\<close> raises, so the
      program returned with an error has the state's (possibly empty) table.\<close>
  "add p ins =
     (if p_tapes p = 1 then
        (let (inner, m1) = setdefault (map_1 p) (cur_state ins) [] in
         case ins_read ins of
           [] \<Rightarrow> (Some IndexError, p\<lparr>map_1 := m1\<rparr>)
         | r0 # _ \<Rightarrow>
             let (l, inner') = setdefault inner r0 [] in
             (None, p\<lparr>map_1 := AList.update (cur_state ins)
                                  (AList.update r0 (l @ [ins]) inner') m1\<rparr>))
      else
        (let (inner, m2) = setdefault (map_2 p) (cur_state ins) [] in
         case ins_read ins of
           r0 # r1 # _ \<Rightarrow>
             let (l, inner') = setdefault inner (r0, r1) [] in
             (None, p\<lparr>map_2 := AList.update (cur_state ins)
                                  (AList.update (r0, r1) (l @ [ins]) inner') m2\<rparr>)
         | _ \<Rightarrow> (Some IndexError, p\<lparr>map_2 := m2\<rparr>)))"

definition lookup_1 :: "rules_1 \<Rightarrow> string \<Rightarrow> string \<Rightarrow> Instruction list option" where
  \<comment> \<open>\<open>m[state][sym]\<close> when \<open>state in m and sym in m[state]\<close>\<close>
  "lookup_1 m st sy = (case map_of m st of None \<Rightarrow> None | Some inner \<Rightarrow> map_of inner sy)"

definition get_1 :: "Program \<Rightarrow> string \<Rightarrow> string \<Rightarrow> Instruction list" where
  "get_1 p st sy =
     (case lookup_1 (map_1 p) st sy of Some l \<Rightarrow> l | None \<Rightarrow>
      case lookup_1 (map_1 p) st ''*'' of Some l \<Rightarrow> l | None \<Rightarrow>
      case lookup_1 (map_1 p) ''*'' sy of Some l \<Rightarrow> l | None \<Rightarrow>
      case lookup_1 (map_1 p) ''*'' ''*'' of Some l \<Rightarrow> l | None \<Rightarrow> [])"

definition pick_for_state :: "rules_2 \<Rightarrow> string \<Rightarrow> string \<Rightarrow> string \<Rightarrow> Instruction list" where
  "pick_for_state m2 r1 r2 st =
     (case map_of m2 st of
        None \<Rightarrow> []
      | Some m \<Rightarrow>
          if m = [] then []
          else case map_of m (r1, r2) of
            Some l \<Rightarrow> l
          | None \<Rightarrow>
              let tier2 = (case map_of m (r1, ''*'') of Some l \<Rightarrow> l | None \<Rightarrow> [])
                        @ (case map_of m (''*'', r2) of Some l \<Rightarrow> l | None \<Rightarrow> [])
              in if tier2 \<noteq> [] then tier2
                 else case map_of m (''*'', ''*'') of Some l \<Rightarrow> l | None \<Rightarrow> [])"

definition get_2 :: "Program \<Rightarrow> string \<Rightarrow> string \<Rightarrow> string \<Rightarrow> Instruction list" where
  "get_2 p st r1 r2 =
     (let res = pick_for_state (map_2 p) r1 r2 st
      in if res \<noteq> [] then res else pick_for_state (map_2 p) r1 r2 ''*'')"

definition get_next :: "Program \<Rightarrow> string \<Rightarrow> string list \<Rightarrow> error + Instruction list" where
  "get_next p st reads =
     (if p_tapes p = 1 then
        (case reads of [] \<Rightarrow> Inl IndexError | r0 # _ \<Rightarrow> Inr (get_1 p st r0))
      else
        (case reads of r0 # r1 # _ \<Rightarrow> Inr (get_2 p st r0 r1) | _ \<Rightarrow> Inl IndexError))"

section \<open>The parser\<close>

definition directive_keywords :: "string list" where
  "directive_keywords =
     [''tapes'', ''blank'', ''start'', ''initial_tape'', ''initial_state'', ''nondet'', ''oneway'']"

definition directive_match :: "string \<Rightarrow> bool" where
  \<comment> \<open>whether the regular expression
      \<open>(?i)^\s*(tapes|blank|start|initial_tape|initial_state|nondet|oneway)\s*:\<close>
      matches at the start of the text\<close>
  "directive_match s =
     (let t = dropWhile isspace s in
      list_ex (\<lambda>k. lower (take (length k) t) = k \<and>
                    (case dropWhile isspace (drop (length k) t) of
                       [] \<Rightarrow> False
                     | c # _ \<Rightarrow> c = CHR '':''))
        directive_keywords)"

definition parse_error :: "int \<Rightarrow> string \<Rightarrow> error" where
  \<comment> \<open>\<open>TMParseError(f"Line {i+1}: ...")\<close>\<close>
  "parse_error i msg = TMParseError (''Line '' @ str_int (i + 1) @ '': '' @ msg)"

definition parse_rule :: "int \<Rightarrow> int \<Rightarrow> string \<Rightarrow> error + Instruction option" where
  \<comment> \<open>The body of the loop of \<open>parse_from_text\<close> up to the call of \<open>add\<close>, for the line
      \<open>raw\<close> at index \<open>i\<close>: the error raised, or the instruction built (none for a line
      that is skipped).\<close>
  "parse_rule n i raw =
     (if directive_match (strip raw) then Inr None
      else let line = strip_comment raw in
        if line = [] then Inr None
        else let toks = str_split line in
          if n = 1 then
            (if length toks \<noteq> 5 \<and> length toks \<noteq> 6
             then Inl (parse_error i ''expected 5 or 6 tokens for 1-tape rule'')
             else let cur = toks ! 0; cs = toks ! 1; ns = toks ! 2; d = toks ! 3; st = toks ! 4;
                      bp = (length toks = 6 \<and> toks ! 5 = ''!'')
               in if length cs \<noteq> 1 \<or> length ns \<noteq> 1
                  then Inl (parse_error i ''symbols must be single characters'')
                  else if lower d \<notin> set [''l'', ''r'', ''*'']
                  then Inl (parse_error i ''direction must be l, r, or *'')
                  else Inr (Some \<lparr>cur_state = cur, ins_read = [cs], ins_write = [ns],
                                  ins_move = [lower d], next_state = st,
                                  breakpoint = bp, line_no = i\<rparr>))
          else
            (if length toks \<noteq> 8 \<and> length toks \<noteq> 9
             then Inl (parse_error i ''expected 8 or 9 tokens for 2-tape rule'')
             else let cur = toks ! 0; r1 = toks ! 1; r2 = toks ! 2; w1 = toks ! 3; w2 = toks ! 4;
                      d1 = toks ! 5; d2 = toks ! 6; st = toks ! 7;
                      bp = (length toks = 9 \<and> toks ! 8 = ''!'')
               in if list_ex (\<lambda>s. length s \<noteq> 1) [r1, r2, w1, w2]
                  then Inl (parse_error i ''symbols must be single characters'')
                  else if lower d1 \<notin> set [''l'', ''r'', ''*'']
                          \<or> lower d2 \<notin> set [''l'', ''r'', ''*'']
                  then Inl (parse_error i ''direction must be l, r, or *'')
                  else Inr (Some \<lparr>cur_state = cur, ins_read = [r1, r2], ins_write = [w1, w2],
                                  ins_move = [lower d1, lower d2], next_state = st,
                                  breakpoint = bp, line_no = i\<rparr>)))"

fun parse_lines :: "Program \<Rightarrow> int \<Rightarrow> string list \<Rightarrow> error option \<times> Program" where
  \<comment> \<open>the loop \<open>for i, raw in enumerate(lines)\<close>, from index \<open>i\<close> on; an exception ends
      it and leaves the program as it is at that moment\<close>
  "parse_lines p i [] = (None, p)"
| "parse_lines p i (raw # rest) =
     (case parse_rule (p_tapes p) i raw of
        Inl e \<Rightarrow> (Some e, p)
      | Inr None \<Rightarrow> parse_lines p (i + 1) rest
      | Inr (Some ins) \<Rightarrow>
          (case add p ins of
             (Some e, p') \<Rightarrow> (Some e, p')
           | (None, p') \<Rightarrow> parse_lines p' (i + 1) rest))"

definition parse_from_text :: "Program \<Rightarrow> string \<Rightarrow> error option \<times> Program" where
  "parse_from_text p txt = parse_lines ((clear p)\<lparr>source_text := txt\<rparr>) 0 (splitlines txt)"

section \<open>The execution engine\<close>

record Machine =
  prog :: "Program option"
  tapes :: "Tape list"
  state :: string
  steps :: int
  halted :: bool
  halt_msg :: string

definition Machine_init :: Machine where
  "Machine_init = \<lparr>prog = None, tapes = [], state = ''0'', steps = 0, halted = True,
                    halt_msg = ''Load or type a program, then Reset.''\<rparr>"

definition configure :: "Machine \<Rightarrow> Program \<Rightarrow> Machine" where
  "configure m p = m\<lparr>prog := Some p, tapes := replicate (nat (p_tapes p)) (Tape_init BLANK)\<rparr>"

definition Machine_reset :: "Machine \<Rightarrow> string \<Rightarrow> string \<Rightarrow> error option \<times> Machine" where
  \<comment> \<open>\<open>self.tapes[0]\<close> raises when the machine has no tape\<close>
  "Machine_reset m input_w initial_state =
     (case prog m of
        None \<Rightarrow> (None, m\<lparr>halted := True, halt_msg := ''No program loaded.''\<rparr>)
      | Some p \<Rightarrow>
          (case map (\<lambda>t. Tape_reset (t\<lparr>blank := BLANK\<rparr>)) (tapes m) of
             [] \<Rightarrow> (Some IndexError, m)
           | t0 # rest \<Rightarrow>
               let ts = load_leftmost t0 input_w # rest;
                   ts' = (if length ts = 2 then ts[1 := Tape_reset (ts ! 1)] else ts)
               in (None, m\<lparr>tapes := ts',
                            state := (case str_split (strip initial_state) of
                                        [] \<Rightarrow> ''0'' | s # _ \<Rightarrow> s),
                            steps := 0, halted := False, halt_msg := []\<rparr>)))"

definition reads :: "Machine \<Rightarrow> string list" where
  "reads m = map Tape_read (tapes m)"

fun write_tapes :: "string list \<Rightarrow> string list \<Rightarrow> nat \<Rightarrow> Tape list \<Rightarrow> error option \<times> Tape list" where
  \<comment> \<open>the first loop of \<open>step\<close> from tape \<open>i\<close> on; \<open>rs\<close> holds one symbol per tape, read
      before the loop, and \<open>ins.write[i]\<close> raises when the tuple is too short\<close>
  "write_tapes rs ws i [] = (None, [])"
| "write_tapes rs ws i (t # ts) =
     (if length ws \<le> i then (Some IndexError, t # ts)
      else let w = (if ws ! i = ''*'' then rs ! i else ws ! i);
               (e, ts') = write_tapes rs ws (i + 1) ts
           in (e, Tape_write t w # ts'))"

fun move_tapes :: "string list \<Rightarrow> nat \<Rightarrow> Tape list \<Rightarrow> error option \<times> Tape list" where
  \<comment> \<open>the second loop of \<open>step\<close> from tape \<open>i\<close> on\<close>
  "move_tapes ms i [] = (None, [])"
| "move_tapes ms i (t # ts) =
     (if length ms \<le> i then (Some IndexError, t # ts)
      else case Tape_move t (ms ! i) of
             (Some e, t') \<Rightarrow> (Some e, t' # ts)
           | (None, t') \<Rightarrow> let (e, ts') = move_tapes ms (i + 1) ts in (e, t' # ts'))"

definition entered_msg :: "string \<Rightarrow> string" where
  \<comment> \<open>\<open>f"Halted (entered state '{self.state}')."\<close>\<close>
  "entered_msg st = ''Halted (entered state '' @ [CHR 0x27] @ st @ [CHR 0x27] @ '').''"

definition no_rule_msg :: "string \<Rightarrow> string list \<Rightarrow> string" where
  \<comment> \<open>\<open>f"Halted (no rule for state '{self.state}' reading {reads})."\<close>\<close>
  "no_rule_msg st rs =
     ''Halted (no rule for state '' @ [CHR 0x27] @ st @ [CHR 0x27] @ '' reading ''
       @ repr_tuple rs @ '').''"

definition breakpoint_msg :: "Instruction \<Rightarrow> string" where
  \<comment> \<open>\<open>f"Paused at breakpoint (line {ins.line_no+1})."\<close>\<close>
  "breakpoint_msg ins = ''Paused at breakpoint (line '' @ str_int (line_no ins + 1) @ '').''"

definition step :: "Machine \<Rightarrow> (error + Instruction option) \<times> Machine" where
  \<comment> \<open>The value returned (\<open>Inr None\<close> is Python's \<open>None\<close>, \<open>Inl\<close> an exception) and the
      machine afterwards.\<close>
  "step m =
     (case prog m of
        None \<Rightarrow> (Inr None, m)
      | Some p \<Rightarrow>
          if halted m then (Inr None, m)
          else if is_halt_state (state m)
          then (Inr None, m\<lparr>halted := True, halt_msg := entered_msg (state m)\<rparr>)
          else
            let rs = reads m in
            case get_next p (state m) rs of
              Inl e \<Rightarrow> (Inl e, m)
            | Inr [] \<Rightarrow> (Inr None, m\<lparr>halted := True, halt_msg := no_rule_msg (state m) rs\<rparr>)
            | Inr (ins # _) \<Rightarrow>
                let new_state = (if next_state ins = ''*'' then state m else next_state ins) in
                case write_tapes rs (ins_write ins) 0 (tapes m) of
                  (Some e, ts) \<Rightarrow> (Inl e, m\<lparr>tapes := ts\<rparr>)
                | (None, ts) \<Rightarrow>
                    (case move_tapes (ins_move ins) 0 ts of
                       (Some e, ts') \<Rightarrow> (Inl e, m\<lparr>tapes := ts'\<rparr>)
                     | (None, ts') \<Rightarrow>
                         let m1 = m\<lparr>tapes := ts', state := new_state, steps := steps m + 1\<rparr>;
                             m2 = (if breakpoint ins
                                   then m1\<lparr>halted := True, halt_msg := breakpoint_msg ins\<rparr>
                                   else m1);
                             m3 = (if is_halt_state (state m2)
                                   then m2\<lparr>halted := True, halt_msg := entered_msg (state m2)\<rparr>
                                   else m2)
                         in (Inr (Some ins), m3)))"

fun run_steps :: "nat \<Rightarrow> Machine \<Rightarrow> Machine" where
  \<comment> \<open>the machine after \<open>n\<close> calls of \<open>step\<close>, whatever each of them returned\<close>
  "run_steps 0 m = m"
| "run_steps (Suc n) m = run_steps n (snd (step m))"

section \<open>Sequences of tape operations\<close>

text \<open>
  The operations a caller can apply to a tape, to state what holds after any sequence
  of them.  A \<open>move\<close> that raises leaves the tape as it was.
\<close>

datatype tape_op = Op_write string | Op_load string | Op_move string | Op_reset

fun apply_op :: "Tape \<Rightarrow> tape_op \<Rightarrow> Tape" where
  "apply_op t (Op_write s) = Tape_write t s"
| "apply_op t (Op_load w) = load_leftmost t w"
| "apply_op t (Op_move m) = snd (Tape_move t m)"
| "apply_op t Op_reset = Tape_reset t"

definition stores_no_blank :: "Tape \<Rightarrow> bool" where
  "stores_no_blank t = (\<forall>p. map_of (cells t) p \<noteq> Some (blank t))"

section \<open>Registration order and the tiers of a lookup\<close>

fun add_all :: "Program \<Rightarrow> Instruction list \<Rightarrow> error option \<times> Program" where
  \<comment> \<open>\<open>add\<close> called on each instruction in turn, until one call raises\<close>
  "add_all p [] = (None, p)"
| "add_all p (ins # rest) =
     (case add p ins of
        (Some e, p') \<Rightarrow> (Some e, p')
      | (None, p') \<Rightarrow> add_all p' rest)"

definition registered_1 :: "Instruction list \<Rightarrow> string \<Rightarrow> string \<Rightarrow> Instruction list" where
  \<comment> \<open>the instructions of a registration sequence whose key is (state, symbol), in the
      order of their registration\<close>
  "registered_1 xs st sy =
     filter (\<lambda>ins. cur_state ins = st \<and> (case ins_read ins of [] \<Rightarrow> False | r0 # _ \<Rightarrow> r0 = sy)) xs"

definition registered_2 :: "Instruction list \<Rightarrow> string \<Rightarrow> string \<times> string \<Rightarrow> Instruction list" where
  \<comment> \<open>the same for a 2-tape key (state, (r1, r2))\<close>
  "registered_2 xs st k =
     filter (\<lambda>ins. cur_state ins = st \<and>
                   (case ins_read ins of r0 # r1 # _ \<Rightarrow> (r0, r1) = k | _ \<Rightarrow> False)) xs"

fun first_nonempty :: "'a list list \<Rightarrow> 'a list" where
  \<comment> \<open>the first list of a sequence of tiers that is not empty; the empty list if none is\<close>
  "first_nonempty [] = []"
| "first_nonempty (t # ts) = (if t \<noteq> [] then t else first_nonempty ts)"

definition tier_pass :: "Instruction list \<Rightarrow> string \<Rightarrow> string \<Rightarrow> string \<Rightarrow> Instruction list" where
  \<comment> \<open>The three-tier pass of a 2-tape lookup over one state's rules, in the words of the
      specification: the exact key; otherwise the matches of (r1, *) followed by those of
      (*, r2); otherwise (*, *).\<close>
  "tier_pass xs r1 r2 st =
     first_nonempty [registered_2 xs st (r1, r2),
                     registered_2 xs st (r1, ''*'') @ registered_2 xs st (''*'', r2),
                     registered_2 xs st (''*'', ''*'')]"

definition lookup_2 :: "rules_2 \<Rightarrow> string \<Rightarrow> string \<times> string \<Rightarrow> Instruction list option" where
  \<comment> \<open>\<open>m[state][(r1, r2)]\<close> when both keys are present\<close>
  "lookup_2 m st k = (case map_of m st of None \<Rightarrow> None | Some inner \<Rightarrow> map_of inner k)"

section \<open>The rule lines of a text\<close>

fun rules_of :: "int \<Rightarrow> int \<Rightarrow> string list \<Rightarrow> Instruction list" where
  \<comment> \<open>the instructions built from the lines at the indices \<open>i, i + 1, ...\<close>, up to the
      first line that raises\<close>
  "rules_of n i [] = []"
| "rules_of n i (raw # rest) =
     (case parse_rule n i raw of
        Inl e \<Rightarrow> []
      | Inr None \<Rightarrow> rules_of n (i + 1) rest
      | Inr (Some ins) \<Rightarrow> ins # rules_of n (i + 1) rest)"

fun first_error :: "int \<Rightarrow> int \<Rightarrow> string list \<Rightarrow> (nat \<times> error) option" where
  \<comment> \<open>the first line that raises, as its offset in the list, and the error raised\<close>
  "first_error n i [] = None"
| "first_error n i (raw # rest) =
     (case parse_rule n i raw of
        Inl e \<Rightarrow> Some (0, e)
      | Inr _ \<Rightarrow> map_option (\<lambda>(k, e). (Suc k, e)) (first_error n (i + 1) rest))"

section \<open>Example programs and machines\<close>

definition Program_1 :: Program where
  \<comment> \<open>\<open>Program(tapes=1)\<close>\<close>
  "Program_1 = \<lparr>p_tapes = 1, p_blank = BLANK, map_1 = [], map_2 = [], source_text = []\<rparr>"

definition Program_2 :: Program where
  \<comment> \<open>\<open>Program(tapes=2)\<close>\<close>
  "Program_2 = \<lparr>p_tapes = 2, p_blank = BLANK, map_1 = [], map_2 = [], source_text = []\<rparr>"

definition start_machine :: "Program \<Rightarrow> string \<Rightarrow> string \<Rightarrow> string \<Rightarrow> Machine" where
  \<comment> \<open>what the application does before the first step: parse the rules into a fresh
      program, configure a new machine with it, reset it on the input word\<close>
  "start_machine p txt input_w initial_state =
     snd (Machine_reset (configure Machine_init (snd (parse_from_text p txt)))
            input_w initial_state)"

definition scan_program :: string where
  \<comment> \<open>the three rules of \<open>DEFAULT_PROGRAM\<close>, one per line\<close>
  "scan_program = ''0 0 0 r 0'' @ [CHR 0x0A] @ ''0 1 1 r 0'' @ [CHR 0x0A] @ ''0 _ _ * halt''"

definition scan_machine :: Machine where
  "scan_machine = start_machine Program_1 scan_program ''101'' ''0''"

definition bp_halt_program :: string where
  \<comment> \<open>one rule with a breakpoint that enters a halting state\<close>
  "bp_halt_program = ''0 _ _ * halt !''"

definition bp_halt_machine :: Machine where
  "bp_halt_machine = start_machine Program_1 bp_halt_program [] ''0''"

definition bp_halt_rule :: Instruction where
  "bp_halt_rule = \<lparr>cur_state = ''0'', ins_read = [''_''], ins_write = [''_''],
                    ins_move = [''*''], next_state = ''halt'', breakpoint = True, line_no = 0\<rparr>"

definition no_rule_machine :: Machine where
  \<comment> \<open>a machine with no rule at all, started on the word \<open>1\<close>\<close>
  "no_rule_machine = start_machine Program_1 [] ''1'' ''0''"

definition DEFAULT_PROGRAM :: string where
  "DEFAULT_PROGRAM =
     ''; Example 1-tape machine: scan right, then halt'' @ [CHR 0x0A] @
     ''; Format (1-tape): state read write move next'' @ [CHR 0x0A] @
     [CHR 0x0A] @
     ''0 0 0 r 0'' @ [CHR 0x0A] @
     ''0 1 1 r 0'' @ [CHR 0x0A] @
     ''0 _ _ * halt'' @ [CHR 0x0A]"

definition scan_store :: Program where
  "scan_store = snd (parse_from_text Program_1 scan_program)"

definition scan_rules :: "Instruction list" where
  "scan_rules = rules_of 1 0 (splitlines scan_program)"

definition stuck_machine :: Machine where
  \<comment> \<open>the scanning program started on a symbol it has no rule for\<close>
  "stuck_machine = start_machine Program_1 scan_program ''x'' ''0''"

definition union_program :: string where
  \<comment> \<open>two 2-tape rules for the state \<open>q\<close>: first the one reading (*, b), then the one
      reading (a, *)\<close>
  "union_program = ''q * b y y l l q'' @ [CHR 0x0A] @ ''q a * x x r r q''"

definition union_rules :: "Instruction list" where
  "union_rules = rules_of 2 0 (splitlines union_program)"

definition union_store :: Program where
  "union_store = snd (parse_from_text Program_2 union_program)"

definition union_rule_star_b :: Instruction where
  "union_rule_star_b = \<lparr>cur_state = ''q'', ins_read = [''*'', ''b''], ins_write = [''y'', ''y''],
                         ins_move = [''l'', ''l''], next_state = ''q'', breakpoint = False,
                         line_no = 0\<rparr>"

definition union_rule_a_star :: Instruction where
  "union_rule_a_star = \<lparr>cur_state = ''q'', ins_read = [''a'', ''*''], ins_write = [''x'', ''x''],
                         ins_move = [''r'', ''r''], next_state = ''q'', breakpoint = False,
                         line_no = 1\<rparr>"

definition stored_in :: "Program \<Rightarrow> Instruction \<Rightarrow> bool" where
  \<comment> \<open>the instruction is in the list that the store holds for the instruction's own key\<close>
  "stored_in p ins =
     (if p_tapes p = 1 then
        (case ins_read ins of
           r0 # _ \<Rightarrow> (case lookup_1 (map_1 p) (cur_state ins) r0 of
                        Some l \<Rightarrow> ins \<in> set l | None \<Rightarrow> False)
         | [] \<Rightarrow> False)
      else
        (case ins_read ins of
           r0 # r1 # _ \<Rightarrow> (case lookup_2 (map_2 p) (cur_state ins) (r0, r1) of
                             Some l \<Rightarrow> ins \<in> set l | None \<Rightarrow> False)
         | _ \<Rightarrow> False))"

definition partial_program :: string where
  \<comment> \<open>a rule line followed by a malformed line\<close>
  "partial_program = ''0 0 0 r 0'' @ [CHR 0x0A] @ ''bad''"

definition first_scan_rule :: Instruction where
  \<comment> \<open>the instruction of the rule \<open>0 0 0 r 0\<close> on the first line of a text\<close>
  "first_scan_rule = \<lparr>cur_state = ''0'', ins_read = [''0''], ins_write = [''0''],
                       ins_move = [''r''], next_state = ''0'', breakpoint = False, line_no = 0\<rparr>"

definition six_token_line :: string where
  "six_token_line = ''0 0 0 r 0 x''"

definition nine_token_line :: string where
  "nine_token_line = ''q a b x y l r q x''"

definition malformed :: "int \<Rightarrow> string \<Rightarrow> bool" where
  \<comment> \<open>A malformed rule line for the tape count \<open>n\<close>: a line that is not a directive and
      is not empty once its comment is removed, and whose tokens break one of the three
      checks of \<open>parse_from_text\<close> (the number of tokens, the one-character symbols, the
      moves).\<close>
  "malformed n raw =
     (\<not> directive_match (strip raw) \<and> strip_comment raw \<noteq> [] \<and>
      (let toks = str_split (strip_comment raw) in
       if n = 1 then
         (length toks \<noteq> 5 \<and> length toks \<noteq> 6)
         \<or> length (toks ! 1) \<noteq> 1 \<or> length (toks ! 2) \<noteq> 1
         \<or> lower (toks ! 3) \<notin> set [''l'', ''r'', ''*'']
       else
         (length toks \<noteq> 8 \<and> length toks \<noteq> 9)
         \<or> list_ex (\<lambda>s. length s \<noteq> 1) [toks ! 1, toks ! 2, toks ! 3, toks ! 4]
         \<or> lower (toks ! 5) \<notin> set [''l'', ''r'', ''*'']
         \<or> lower (toks ! 6) \<notin> set [''l'', ''r'', ''*'']))"

definition bad_symbol_program :: string where
  \<comment> \<open>a rule line followed by a line with a two-character symbol\<close>
  "bad_symbol_program = ''0 0 0 r 0'' @ [CHR 0x0A] @ ''0 ab 0 r 0''"

definition bad_move_program :: string where
  \<comment> \<open>a rule line followed by a line with an invalid move\<close>
  "bad_move_program = ''0 0 0 r 0'' @ [CHR 0x0A] @ ''0 0 0 x 0''"

definition two_rule_program :: string where
  \<comment> \<open>two rules registered for the same key (0, 1)\<close>
  "two_rule_program = ''0 1 x r a'' @ [CHR 0x0A] @ ''0 1 y l b''"

definition two_rule_rules :: "Instruction list" where
  "two_rule_rules = rules_of 1 0 (splitlines two_rule_program)"

definition two_rule_store :: Program where
  "two_rule_store = snd (parse_from_text Program_1 two_rule_program)"

definition two_rule_machine :: Machine where
  "two_rule_machine = start_machine Program_1 two_rule_program ''1'' ''0''"

section \<open>Properties of the tape\<close>

lemma map_of_load_cells:
  "map_of (load_cells b i s cs) p =
     (if i \<le> p \<and> p < i + int (length s) \<and> [s ! nat (p - i)] \<noteq> b
      then Some [s ! nat (p - i)] else map_of cs p)"
proof (induction s arbitrary: i cs p)
  case Nil
  then show ?case by auto
next
  case (Cons ch rest)
  show ?case
  proof (cases "p = i")
    case True
    then show ?thesis by (simp add: Cons.IH update_conv')
  next
    case False
    then have "nat (p - i) = Suc (nat (p - (i + 1)))" if "i \<le> p" using that by simp
    with False show ?thesis by (auto simp add: Cons.IH update_conv')
  qed
qed

lemma replace_char_single:
  "replace_char s old [c] = map (\<lambda>x. if x = old then c else x) s"
  by (induction s) (auto simp: replace_char_def)

lemma load_cells_never_blank:
  "map_of (load_cells b i s cs) p = Some b \<Longrightarrow> map_of cs p = Some b"
  by (auto simp: map_of_load_cells split: if_splits)

lemma load_leftmost_blank [simp]: "blank (load_leftmost t w) = blank t"
  by (simp add: load_leftmost_def Tape_reset_def Let_def)

lemma Tape_write_blank [simp]: "blank (Tape_write t s) = blank t"
  by (simp add: Tape_write_def)

lemma Tape_move_blank [simp]: "blank (snd (Tape_move t m)) = blank t"
  by (simp add: Tape_move_def Let_def split: option.splits)

lemma Tape_move_cells [simp]: "cells (snd (Tape_move t m)) = cells t"
  by (simp add: Tape_move_def Let_def split: option.splits)

lemma apply_op_no_blank:
  assumes "stores_no_blank t"
  shows "stores_no_blank (apply_op t x)"
proof (cases x)
  case (Op_write s)
  with assms show ?thesis
    by (auto simp: stores_no_blank_def Tape_write_def update_conv' delete_conv')
next
  case (Op_load w)
  with assms show ?thesis
    by (auto simp: stores_no_blank_def load_leftmost_def Let_def Tape_reset_def
        dest!: load_cells_never_blank)
next
  case (Op_move m)
  with assms show ?thesis
    by (simp add: stores_no_blank_def)
next
  case Op_reset
  with assms show ?thesis
    by (simp add: stores_no_blank_def Tape_reset_def)
qed

lemma foldl_apply_op_no_blank:
  "stores_no_blank t \<Longrightarrow> stores_no_blank (foldl apply_op t ops)"
  by (induction ops arbitrary: t) (auto simp: apply_op_no_blank)

lemma in_dom_iff_not_blank:
  "stores_no_blank t \<Longrightarrow>
     (p \<in> dom (map_of (cells t))) = (dict_get (cells t) p (blank t) \<noteq> blank t)"
  by (auto simp: stores_no_blank_def dict_get_def split: option.splits)

text \<open>
  Claim C7.  A tape is created empty (\<open>Tape_init\<close>).  After any sequence of write, load,
  move and reset operations, a position is a key of the cell dictionary if and only if
  the symbol stored there (what \<open>cells.get(p, blank)\<close> gives) is not the blank.  Writing
  the blank at the head removes the entry at the head: the next \<open>read()\<close> gives the blank
  and the head is not a key of the dictionary.
\<close>

theorem tape_sparseness:
  "(p \<in> dom (map_of (cells (foldl apply_op (Tape_init b) ops)))) =
     (dict_get (cells (foldl apply_op (Tape_init b) ops)) p
        (blank (foldl apply_op (Tape_init b) ops)) \<noteq> blank (foldl apply_op (Tape_init b) ops))
   \<and> Tape_read (Tape_write t (blank t)) = blank t
   \<and> head t \<notin> dom (map_of (cells (Tape_write t (blank t))))
   \<and> head t \<notin> fst ` set (cells (Tape_write t (blank t)))"
proof -
  have "stores_no_blank (Tape_init b)"
    by (simp add: stores_no_blank_def Tape_init_def)
  then have "stores_no_blank (foldl apply_op (Tape_init b) ops)"
    by (rule foldl_apply_op_no_blank)
  moreover have "head t \<notin> fst ` set (cells (Tape_write t (blank t)))"
    by (simp add: Tape_write_def delete_notin_dom)
  ultimately show ?thesis
    by (simp add: in_dom_iff_not_blank Tape_read_def Tape_write_def dict_get_def delete_conv')
qed

text \<open>
  Claim C8.  On a tape whose blank is one character (it is always \<open>_\<close> in the simulator),
  \<open>load_leftmost\<close> puts the head at 0 and leaves in the cell dictionary exactly the
  characters of the word that are neither a space nor the blank, the character at index
  \<open>p\<close> of the word at position \<open>p\<close>; what the tape held before is gone, every other
  position is absent (so it reads as blank), and the empty word gives the empty
  dictionary.
\<close>

theorem load_leftmost_places_word:
  assumes "length (blank t) = 1"
  shows "head (load_leftmost t w) = 0
    \<and> blank (load_leftmost t w) = blank t
    \<and> map_of (cells (load_leftmost t w)) p =
        (if 0 \<le> p \<and> p < int (length w) \<and> w ! nat p \<noteq> CHR '' '' \<and> [w ! nat p] \<noteq> blank t
         then Some [w ! nat p] else None)
    \<and> (w = [] \<longrightarrow> cells (load_leftmost t w) = [])"
proof -
  from assms obtain c where b: "blank t = [c]"
    by (cases "blank t") auto
  have "map_of (cells (load_leftmost t w)) p =
        (if 0 \<le> p \<and> p < int (length w) \<and> w ! nat p \<noteq> CHR '' '' \<and> [w ! nat p] \<noteq> blank t
         then Some [w ! nat p] else None)"
    by (cases "w = []")
      (auto simp: load_leftmost_def Let_def Tape_reset_def b replace_char_single map_of_load_cells)
  moreover have "w = [] \<longrightarrow> cells (load_leftmost t w) = []"
    by (simp add: load_leftmost_def Let_def Tape_reset_def b replace_char_def)
  ultimately show ?thesis
    by (simp add: load_leftmost_def Let_def Tape_reset_def)
qed

text \<open>
  The example of the claim: on a fresh tape, loading \<open>101\<close> gives \<open>1\<close>, \<open>0\<close>, \<open>1\<close> at the
  positions 0, 1, 2, nothing at 3 and at -1, and the head at 0.
\<close>

theorem load_leftmost_places_word_witness:
  "length (blank (Tape_init BLANK)) = 1
   \<and> head (load_leftmost (Tape_init BLANK) ''101'') = 0
   \<and> map_of (cells (load_leftmost (Tape_init BLANK) ''101'')) 0 = Some ''1''
   \<and> map_of (cells (load_leftmost (Tape_init BLANK) ''101'')) 1 = Some ''0''
   \<and> map_of (cells (load_leftmost (Tape_init BLANK) ''101'')) 2 = Some ''1''
   \<and> map_of (cells (load_leftmost (Tape_init BLANK) ''101'')) 3 = None
   \<and> map_of (cells (load_leftmost (Tape_init BLANK) ''101'')) (- 1) = None"
proof -
  have h: "length (blank (Tape_init BLANK)) = 1"
    by (simp add: Tape_init_def BLANK_def)
  have b: "blank (Tape_init BLANK) = ''_''"
    by (simp add: Tape_init_def BLANK_def)
  show ?thesis
    using h
      load_leftmost_places_word [OF h, of "''101''" 0]
      load_leftmost_places_word [OF h, of "''101''" 1]
      load_leftmost_places_word [OF h, of "''101''" 2]
      load_leftmost_places_word [OF h, of "''101''" 3]
      load_leftmost_places_word [OF h, of "''101''" "- 1"]
    by (simp add: b)
qed

section \<open>Properties of a step\<close>

lemma step_halted: "halted m \<Longrightarrow> step m = (Inr None, m)"
  by (simp add: step_def split: option.splits)

lemma run_steps_halted: "halted m \<Longrightarrow> run_steps n m = m"
  by (induction n) (simp_all add: step_halted)

lemma run_steps_add: "run_steps (a + b) m = run_steps b (run_steps a m)"
  by (induction a arbitrary: m) simp_all

text \<open>
  Claim C10.  When \<open>step\<close> returns \<open>None\<close>, the machine afterwards is the machine before
  with at most the halted flag and the halt reason changed: the program, the tapes (their
  contents and their heads), the current state and the step counter are the same.  It
  returns \<open>None\<close> only when no program is bound, the machine is halted, the current state
  is a halting label, or the lookup gives no rule.
\<close>

theorem step_None_frame:
  assumes "step m = (Inr None, m')"
  shows "m' = m\<lparr>halted := halted m', halt_msg := halt_msg m'\<rparr>
    \<and> tapes m' = tapes m \<and> map cells (tapes m') = map cells (tapes m)
    \<and> map head (tapes m') = map head (tapes m)
    \<and> state m' = state m \<and> steps m' = steps m \<and> prog m' = prog m
    \<and> (prog m = None \<or> halted m \<or> is_halt_state (state m)
        \<or> (\<exists>p. prog m = Some p \<and> get_next p (state m) (reads m) = Inr []))"
  using assms
  by (auto simp: step_def Let_def
      split: option.splits sum.splits list.splits prod.splits if_splits)

theorem step_None_frame_witness:
  "step no_rule_machine = (Inr None, snd (step no_rule_machine))
   \<and> tapes (snd (step no_rule_machine)) = tapes no_rule_machine
   \<and> map cells (tapes (snd (step no_rule_machine))) = [[(0, ''1'')]]
   \<and> map head (tapes (snd (step no_rule_machine))) = [0]
   \<and> state (snd (step no_rule_machine)) = state no_rule_machine
   \<and> steps (snd (step no_rule_machine)) = steps no_rule_machine
   \<and> halted no_rule_machine = False
   \<and> halted (snd (step no_rule_machine)) = True
   \<and> halt_msg (snd (step no_rule_machine)) = no_rule_msg ''0'' [''1'']"
proof -
  have r: "fst (step no_rule_machine) = Inr None"
    by code_simp
  have h: "step no_rule_machine = (Inr None, snd (step no_rule_machine))"
    using r by (simp add: prod_eq_iff)
  have c: "map cells (tapes no_rule_machine) = [[(0, ''1'')]]"
    by code_simp
  have d: "map head (tapes no_rule_machine) = [0]"
    by code_simp
  have e: "halted no_rule_machine = False"
    by code_simp
  have f: "halted (snd (step no_rule_machine)) = True"
    by code_simp
  have g: "halt_msg (snd (step no_rule_machine)) = no_rule_msg ''0'' [''1'']"
    by code_simp
  show ?thesis
    using step_None_frame [OF h] h c d e f g by simp
qed

text \<open>
  Claim C1, as the code has it.  When a step applies an instruction, the machine is halted
  afterwards exactly when the instruction has the breakpoint flag or the new state is a
  halting label.  The check of the halting label runs last and writes its reason
  whenever the new state is a halting label, over the breakpoint reason if there is one:
  the reason is the breakpoint's only when the new state is not a halting label.
\<close>

theorem step_halt_reason:
  assumes "step m = (Inr (Some ins), m')"
  shows "halted m' = (breakpoint ins \<or> is_halt_state (state m'))
    \<and> (is_halt_state (state m') \<longrightarrow> halt_msg m' = entered_msg (state m'))
    \<and> (breakpoint ins \<and> \<not> is_halt_state (state m') \<longrightarrow> halt_msg m' = breakpoint_msg ins)
    \<and> (\<not> breakpoint ins \<and> \<not> is_halt_state (state m') \<longrightarrow> halt_msg m' = halt_msg m)"
  using assms
  by (auto simp: step_def Let_def
      split: option.splits sum.splits list.splits prod.splits if_splits)

theorem step_halt_reason_witness:
  "step bp_halt_machine = (Inr (Some bp_halt_rule), snd (step bp_halt_machine))
   \<and> breakpoint bp_halt_rule
   \<and> is_halt_state (state (snd (step bp_halt_machine)))
   \<and> halted (snd (step bp_halt_machine))
   \<and> halt_msg (snd (step bp_halt_machine)) = entered_msg (state (snd (step bp_halt_machine)))"
proof -
  have r: "fst (step bp_halt_machine) = Inr (Some bp_halt_rule)"
    by code_simp
  have h: "step bp_halt_machine = (Inr (Some bp_halt_rule), snd (step bp_halt_machine))"
    using r by (simp add: prod_eq_iff)
  have b: "breakpoint bp_halt_rule"
    by (simp add: bp_halt_rule_def)
  have s: "is_halt_state (state (snd (step bp_halt_machine)))"
    by code_simp
  show ?thesis
    using step_halt_reason [OF h] h b s by simp
qed

text \<open>
  The claim C1 as stated fails on the one-rule program \<open>0 _ _ * halt !\<close> started on the
  empty word: the step applies the rule of line 1, which has the breakpoint flag, and
  enters \<open>halt\<close>; the reason reported is the one of the halting state, not the
  breakpoint's.
\<close>

theorem breakpoint_reason_overwritten:
  "fst (step bp_halt_machine) = Inr (Some bp_halt_rule)
   \<and> breakpoint bp_halt_rule
   \<and> is_halt_state (state (snd (step bp_halt_machine)))
   \<and> breakpoint_msg bp_halt_rule = ''Paused at breakpoint (line 1).''
   \<and> halt_msg (snd (step bp_halt_machine)) = ''Halted (entered state '' @ [CHR 0x27] @ ''halt'' @ [CHR 0x27] @ '').''
   \<and> halt_msg (snd (step bp_halt_machine)) \<noteq> breakpoint_msg bp_halt_rule"
  by code_simp

text \<open>
  Claim C5, as the code has it.  The three rules parse without error, and the machine
  started on \<open>101\<close> in state \<open>0\<close> is running.  After 3 steps it has read the word, the
  head is at 3, the counter is 3, and it is still running in state \<open>0\<close>.  The 4th step
  applies \<open>0 _ _ * halt\<close>: the machine halts with the reason of the halting state
  \<open>halt\<close>, the counter is 4, the tape still holds \<open>1\<close>, \<open>0\<close>, \<open>1\<close> at 0, 1, 2 and nothing
  else, and the head is at 3.  Further steps change nothing.  The same holds for the text
  of \<open>DEFAULT_PROGRAM\<close>, with its comment lines.
\<close>

theorem scan_run_halts_on_fourth_step:
  "Program_init 1 = Inr Program_1
   \<and> fst (parse_from_text Program_1 scan_program) = None
   \<and> halted scan_machine = False \<and> state scan_machine = ''0'' \<and> steps scan_machine = 0
   \<and> halted (run_steps 3 scan_machine) = False
   \<and> state (run_steps 3 scan_machine) = ''0''
   \<and> steps (run_steps 3 scan_machine) = 3
   \<and> map head (tapes (run_steps 3 scan_machine)) = [3]
   \<and> halted (run_steps 4 scan_machine) = True
   \<and> halt_msg (run_steps 4 scan_machine) = entered_msg ''halt''
   \<and> state (run_steps 4 scan_machine) = ''halt''
   \<and> steps (run_steps 4 scan_machine) = 4
   \<and> map cells (tapes (run_steps 4 scan_machine)) = [[(0, ''1''), (1, ''0''), (2, ''1'')]]
   \<and> map head (tapes (run_steps 4 scan_machine)) = [3]
   \<and> run_steps (4 + n) scan_machine = run_steps 4 scan_machine
   \<and> halted (run_steps 3 (start_machine Program_1 DEFAULT_PROGRAM ''101'' ''0'')) = False
   \<and> halted (run_steps 4 (start_machine Program_1 DEFAULT_PROGRAM ''101'' ''0'')) = True
   \<and> steps (run_steps 4 (start_machine Program_1 DEFAULT_PROGRAM ''101'' ''0'')) = 4"
proof -
  have h: "halted (run_steps 4 scan_machine) = True"
    by code_simp
  have "run_steps (4 + n) scan_machine = run_steps 4 scan_machine"
    using h by (simp only: run_steps_add run_steps_halted)
  moreover have "Program_init 1 = Inr Program_1"
    by (simp add: Program_init_def Program_1_def)
  moreover have "fst (parse_from_text Program_1 scan_program) = None"
    by code_simp
  moreover have "halted scan_machine = False \<and> state scan_machine = ''0'' \<and> steps scan_machine = 0"
    by code_simp
  moreover have "halted (run_steps 3 scan_machine) = False
      \<and> state (run_steps 3 scan_machine) = ''0''
      \<and> steps (run_steps 3 scan_machine) = 3
      \<and> map head (tapes (run_steps 3 scan_machine)) = [3]"
    by code_simp
  moreover have "halt_msg (run_steps 4 scan_machine) = entered_msg ''halt''
      \<and> state (run_steps 4 scan_machine) = ''halt''
      \<and> steps (run_steps 4 scan_machine) = 4
      \<and> map cells (tapes (run_steps 4 scan_machine)) = [[(0, ''1''), (1, ''0''), (2, ''1'')]]
      \<and> map head (tapes (run_steps 4 scan_machine)) = [3]"
    by code_simp
  moreover have "halted (run_steps 3 (start_machine Program_1 DEFAULT_PROGRAM ''101'' ''0'')) = False
      \<and> halted (run_steps 4 (start_machine Program_1 DEFAULT_PROGRAM ''101'' ''0'')) = True
      \<and> steps (run_steps 4 (start_machine Program_1 DEFAULT_PROGRAM ''101'' ''0'')) = 4"
    by code_simp
  ultimately show ?thesis
    using h by simp
qed

text \<open>
  The claim C5 as stated fails: after 3 steps the machine has not halted and has no halt
  reason, and when it has halted the counter is 4, not 3.
\<close>

theorem scan_run_not_halted_after_three_steps:
  "halted (run_steps 3 scan_machine) = False
   \<and> halt_msg (run_steps 3 scan_machine) = []
   \<and> halted (run_steps 4 scan_machine) = True
   \<and> steps (run_steps 4 scan_machine) = 4"
  by code_simp

section \<open>Properties of the rule store\<close>

lemma add_lookup_1:
  assumes "p_tapes p = 1" and "add p ins = (None, p')"
  shows "lookup_1 (map_1 p') st sy =
           (if cur_state ins = st \<and> (case ins_read ins of [] \<Rightarrow> False | r0 # _ \<Rightarrow> r0 = sy)
            then Some ((case lookup_1 (map_1 p) st sy of None \<Rightarrow> [] | Some l \<Rightarrow> l) @ [ins])
            else lookup_1 (map_1 p) st sy)"
  using assms
  by (auto simp: add_def setdefault_def lookup_1_def update_conv' Let_def
      split: option.splits list.splits prod.splits if_splits)

lemma add_lookup_2:
  assumes "p_tapes p \<noteq> 1" and "add p ins = (None, p')"
  shows "lookup_2 (map_2 p') st k =
           (if cur_state ins = st \<and> (case ins_read ins of r0 # r1 # _ \<Rightarrow> (r0, r1) = k | _ \<Rightarrow> False)
            then Some ((case lookup_2 (map_2 p) st k of None \<Rightarrow> [] | Some l \<Rightarrow> l) @ [ins])
            else lookup_2 (map_2 p) st k)"
  using assms
  by (auto simp: add_def setdefault_def lookup_2_def update_conv' Let_def
      split: option.splits list.splits prod.splits if_splits)

lemma add_tapes: "add p ins = (e, p') \<Longrightarrow> p_tapes p' = p_tapes p"
  by (auto simp: add_def setdefault_def Let_def
      split: option.splits list.splits prod.splits if_splits)

lemma add_all_lookup_1:
  assumes "p_tapes p = 1" and "add_all p xs = (None, p')"
    and "\<And>st sy. lookup_1 (map_1 p) st sy =
           (if registered_1 ys st sy = [] then None else Some (registered_1 ys st sy))"
  shows "lookup_1 (map_1 p') st sy =
           (if registered_1 (ys @ xs) st sy = [] then None
            else Some (registered_1 (ys @ xs) st sy))"
  using assms
proof (induction xs arbitrary: p ys)
  case Nil
  then show ?case by simp
next
  case (Cons x xs)
  from Cons.prems(2) obtain q where q: "add p x = (None, q)" and r: "add_all q xs = (None, p')"
    by (auto split: prod.splits option.splits)
  have t: "p_tapes q = 1"
    using add_tapes [OF q] Cons.prems(1) by simp
  have inv: "lookup_1 (map_1 q) st' sy' =
           (if registered_1 (ys @ [x]) st' sy' = [] then None
            else Some (registered_1 (ys @ [x]) st' sy'))" for st' sy'
    by (simp add: add_lookup_1 [OF Cons.prems(1) q] Cons.prems(3)) (simp add: registered_1_def)
  show ?case
    using Cons.IH [OF t r inv] by simp
qed

lemma add_all_lookup_2:
  assumes "p_tapes p \<noteq> 1" and "add_all p xs = (None, p')"
    and "\<And>st k. lookup_2 (map_2 p) st k =
           (if registered_2 ys st k = [] then None else Some (registered_2 ys st k))"
  shows "lookup_2 (map_2 p') st k =
           (if registered_2 (ys @ xs) st k = [] then None
            else Some (registered_2 (ys @ xs) st k))"
  using assms
proof (induction xs arbitrary: p ys)
  case Nil
  then show ?case by simp
next
  case (Cons x xs)
  from Cons.prems(2) obtain q where q: "add p x = (None, q)" and r: "add_all q xs = (None, p')"
    by (auto split: prod.splits option.splits)
  have t: "p_tapes q \<noteq> 1"
    using add_tapes [OF q] Cons.prems(1) by simp
  have inv: "lookup_2 (map_2 q) st' k' =
           (if registered_2 (ys @ [x]) st' k' = [] then None
            else Some (registered_2 (ys @ [x]) st' k'))" for st' k'
    by (simp add: add_lookup_2 [OF Cons.prems(1) q] Cons.prems(3)) (simp add: registered_2_def)
  show ?case
    using Cons.IH [OF t r inv] by simp
qed

lemma cleared_lookup_1:
  assumes "p_tapes p0 = 1" and "add_all (clear p0) xs = (None, p)"
  shows "lookup_1 (map_1 p) st sy =
           (if registered_1 xs st sy = [] then None else Some (registered_1 xs st sy))"
proof -
  have "p_tapes (clear p0) = 1"
    using assms(1) by (simp add: clear_def)
  from add_all_lookup_1 [OF this assms(2), of "[]"] show ?thesis
    by (simp add: clear_def lookup_1_def registered_1_def)
qed

lemma cleared_lookup_2:
  assumes "p_tapes p0 \<noteq> 1" and "add_all (clear p0) xs = (None, p)"
  shows "lookup_2 (map_2 p) st k =
           (if registered_2 xs st k = [] then None else Some (registered_2 xs st k))"
proof -
  have "p_tapes (clear p0) \<noteq> 1"
    using assms(1) by (simp add: clear_def)
  from add_all_lookup_2 [OF this assms(2), of "[]"] show ?thesis
    by (simp add: clear_def lookup_2_def registered_2_def)
qed

lemma get_1_registered:
  assumes "p_tapes p0 = 1" and "add_all (clear p0) xs = (None, p)"
  shows "get_1 p st sy =
           first_nonempty [registered_1 xs st sy, registered_1 xs st ''*'',
                           registered_1 xs ''*'' sy, registered_1 xs ''*'' ''*'']"
  by (simp add: get_1_def cleared_lookup_1 [OF assms])

lemma pick_for_state_registered:
  assumes "p_tapes p0 \<noteq> 1" and "add_all (clear p0) xs = (None, p)"
  shows "pick_for_state (map_2 p) r1 r2 st = tier_pass xs r1 r2 st"
proof -
  note l = cleared_lookup_2 [OF assms, unfolded lookup_2_def]
  show ?thesis
  proof (cases "map_of (map_2 p) st")
    case None
    have "registered_2 xs st k = []" for k
      using l [where st = st and k = k] None by (simp split: if_splits)
    with None show ?thesis
      by (simp add: pick_for_state_def tier_pass_def)
  next
    case (Some m)
    have k: "map_of m k =
        (if registered_2 xs st k = [] then None else Some (registered_2 xs st k))" for k
      using l [where st = st and k = k] Some by simp
    show ?thesis
    proof (cases "m = []")
      case True
      have "registered_2 xs st k = []" for k
        using k [of k] True by (simp split: if_splits)
      with Some True show ?thesis
        by (simp add: pick_for_state_def tier_pass_def)
    next
      case False
      with Some show ?thesis
        by (simp add: pick_for_state_def tier_pass_def k Let_def)
    qed
  qed
qed

lemma step_applied_1:
  assumes "step m = (Inr (Some ins), m')" and "prog m = Some p" and "p_tapes p = 1"
    and "tapes m = [t]"
  shows "get_1 p (state m) (Tape_read t) \<noteq> [] \<and> ins = hd (get_1 p (state m) (Tape_read t))
    \<and> ins_write ins \<noteq> [] \<and> ins_move ins \<noteq> []
    \<and> Tape_move (Tape_write t (if hd (ins_write ins) = ''*'' then Tape_read t
                                else hd (ins_write ins)))
         (hd (ins_move ins)) = (None, hd (tapes m'))
    \<and> length (tapes m') = 1
    \<and> state m' = (if next_state ins = ''*'' then state m else next_state ins)
    \<and> steps m' = steps m + 1"
  using assms
  by (auto simp: step_def Let_def reads_def get_next_def hd_conv_nth
      split: option.splits sum.splits list.splits prod.splits if_splits)

lemma step_no_rule_1:
  assumes "prog m = Some p" and "p_tapes p = 1" and "tapes m = [t]" and "\<not> halted m"
    and "\<not> is_halt_state (state m)" and "get_1 p (state m) (Tape_read t) = []"
  shows "fst (step m) = Inr None"
  using assms by (simp add: step_def Let_def reads_def get_next_def)

text \<open>
  Claim C2.  Let the store of a 2-tape program be filled by any sequence \<open>xs\<close> of
  registrations after a \<open>clear\<close> (the code takes the 2-tape path whenever the tape count
  is not 1).  The lookup for (state, r1, r2) is the three-tier pass over the rules of the
  live state: the instructions registered for (r1, r2); if there are none, those for
  (r1, *) followed by those for (*, r2); if there are none either, those for (*, *).
  Only when that pass gives nothing is the same pass made over the rules of the state
  \<open>*\<close>.
\<close>

theorem get_2_two_passes:
  assumes "p_tapes p0 \<noteq> 1" and "add_all (clear p0) xs = (None, p)"
  shows "get_2 p st r1 r2 =
           (if tier_pass xs r1 r2 st \<noteq> [] then tier_pass xs r1 r2 st
            else tier_pass xs r1 r2 ''*'')
    \<and> tier_pass xs r1 r2 st =
           (if registered_2 xs st (r1, r2) \<noteq> [] then registered_2 xs st (r1, r2)
            else if registered_2 xs st (r1, ''*'') @ registered_2 xs st (''*'', r2) \<noteq> []
            then registered_2 xs st (r1, ''*'') @ registered_2 xs st (''*'', r2)
            else registered_2 xs st (''*'', ''*''))"
proof -
  have "get_2 p st r1 r2 =
           (if tier_pass xs r1 r2 st \<noteq> [] then tier_pass xs r1 r2 st
            else tier_pass xs r1 r2 ''*'')"
    by (simp add: get_2_def Let_def pick_for_state_registered [OF assms])
  moreover have "tier_pass xs r1 r2 st =
           (if registered_2 xs st (r1, r2) \<noteq> [] then registered_2 xs st (r1, r2)
            else if registered_2 xs st (r1, ''*'') @ registered_2 xs st (''*'', r2) \<noteq> []
            then registered_2 xs st (r1, ''*'') @ registered_2 xs st (''*'', r2)
            else registered_2 xs st (''*'', ''*''))"
    by (simp add: tier_pass_def)
  ultimately show ?thesis
    by (rule conjI)
qed

text \<open>
  The example of the union tier: the rule reading (*, b) is registered before the rule
  reading (a, *), and the lookup for (q, a, b) returns the rule of (a, *) first.
\<close>

theorem get_2_two_passes_witness:
  "p_tapes (Program_2\<lparr>source_text := union_program\<rparr>) \<noteq> 1
   \<and> add_all (clear (Program_2\<lparr>source_text := union_program\<rparr>)) union_rules = (None, union_store)
   \<and> union_rules = [union_rule_star_b, union_rule_a_star]
   \<and> get_2 union_store ''q'' ''a'' ''b'' = [union_rule_a_star, union_rule_star_b]
   \<and> get_2 union_store ''q'' ''a'' ''c'' = [union_rule_a_star]
   \<and> get_2 union_store ''q'' ''c'' ''c'' = []"
proof -
  have h1: "p_tapes (Program_2\<lparr>source_text := union_program\<rparr>) \<noteq> 1"
    by (simp add: Program_2_def)
  have h2: "add_all (clear (Program_2\<lparr>source_text := union_program\<rparr>)) union_rules
              = (None, union_store)"
    by code_simp
  have r: "union_rules = [union_rule_star_b, union_rule_a_star]"
    by code_simp
  have t1: "tier_pass union_rules ''a'' ''b'' ''q'' = [union_rule_a_star, union_rule_star_b]"
    by code_simp
  have t2: "tier_pass union_rules ''a'' ''c'' ''q'' = [union_rule_a_star]"
    by code_simp
  have t3: "tier_pass union_rules ''c'' ''c'' ''q'' = [] \<and> tier_pass union_rules ''c'' ''c'' ''*'' = []"
    by code_simp
  show ?thesis
    using get_2_two_passes [OF h1 h2, of "''q''" "''a''" "''b''"]
      get_2_two_passes [OF h1 h2, of "''q''" "''a''" "''c''"]
      get_2_two_passes [OF h1 h2, of "''q''" "''c''" "''c''"]
      h1 h2 r t1 t2 t3
    by simp
qed

section \<open>Properties of the parser\<close>

lemma parse_rule_line_no: "parse_rule n i raw = Inr (Some ins) \<Longrightarrow> line_no ins = i"
  by (auto simp: parse_rule_def Let_def split: if_splits)

lemma parse_rule_read:
  "parse_rule n i raw = Inr (Some ins) \<Longrightarrow>
     (if n = 1 then \<exists>a. ins_read ins = [a] else \<exists>a b. ins_read ins = [a, b])"
  by (auto simp: parse_rule_def Let_def split: if_splits)

lemma parse_rule_error: "parse_rule n i raw = Inl e \<Longrightarrow> \<exists>msg. e = parse_error i msg"
  by (auto simp: parse_rule_def Let_def split: if_splits)

lemma add_parsed:
  assumes "parse_rule (p_tapes p) i raw = Inr (Some ins)"
  shows "fst (add p ins) = None"
  using parse_rule_read [OF assms]
  by (auto simp: add_def setdefault_def Let_def split: option.splits prod.splits if_splits)

lemma parse_lines_add_all:
  "parse_lines p i ls = (map_option snd (first_error (p_tapes p) i ls),
                         snd (add_all p (rules_of (p_tapes p) i ls)))
   \<and> fst (add_all p (rules_of (p_tapes p) i ls)) = None"
proof (induction ls arbitrary: p i)
  case Nil
  then show ?case by simp
next
  case (Cons raw rest)
  show ?case
  proof (cases "parse_rule (p_tapes p) i raw")
    case (Inl e)
    then show ?thesis by simp
  next
    case (Inr r)
    show ?thesis
    proof (cases r)
      case None
      with Inr Cons.IH [of p "i + 1"] show ?thesis
        by (simp add: option.map_comp comp_def case_prod_unfold)
    next
      case (Some ins)
      with Inr have pr: "parse_rule (p_tapes p) i raw = Inr (Some ins)"
        by simp
      obtain q where q: "add p ins = (None, q)"
        using add_parsed [OF pr] by (cases "add p ins") simp
      have t: "p_tapes q = p_tapes p"
        using q by (rule add_tapes)
      from pr q t Cons.IH [of q "i + 1"] show ?thesis
        by (simp add: option.map_comp comp_def case_prod_unfold)
    qed
  qed
qed

lemma rules_of_index:
  "ins \<in> set (rules_of n i ls) \<Longrightarrow>
     \<exists>k<length ls. parse_rule n (i + int k) (ls ! k) = Inr (Some ins)"
proof (induction ls arbitrary: i)
  case Nil
  then show ?case by simp
next
  case (Cons raw rest)
  have shift: "\<exists>k<length (raw # rest). parse_rule n (i + int k) ((raw # rest) ! k) = Inr (Some ins)"
    if "ins \<in> set (rules_of n (i + 1) rest)"
  proof -
    from Cons.IH [OF that] obtain k where
      "k < length rest" "parse_rule n (i + 1 + int k) (rest ! k) = Inr (Some ins)"
      by blast
    then have "Suc k < length (raw # rest)
        \<and> parse_rule n (i + int (Suc k)) ((raw # rest) ! Suc k) = Inr (Some ins)"
      by (simp add: add.commute add.left_commute)
    then show ?thesis by blast
  qed
  show ?case
  proof (cases "parse_rule n i raw")
    case (Inl e)
    with Cons.prems show ?thesis by simp
  next
    case (Inr r)
    show ?thesis
    proof (cases r)
      case None
      with Inr Cons.prems shift show ?thesis by simp
    next
      case (Some x)
      show ?thesis
      proof (cases "ins = x")
        case True
        with Inr Some have "0 < length (raw # rest)
            \<and> parse_rule n (i + int 0) ((raw # rest) ! 0) = Inr (Some ins)"
          by simp
        then show ?thesis by blast
      next
        case False
        with Inr Some Cons.prems shift show ?thesis by simp
      qed
    qed
  qed
qed

lemma rules_of_complete:
  "first_error n i ls = None \<Longrightarrow> k < length ls \<Longrightarrow>
     parse_rule n (i + int k) (ls ! k) = Inr (Some ins) \<Longrightarrow> ins \<in> set (rules_of n i ls)"
proof (induction ls arbitrary: i k)
  case Nil
  then show ?case by simp
next
  case (Cons raw rest)
  from Cons.prems(1) obtain r where r: "parse_rule n i raw = Inr r"
    and fe: "first_error n (i + 1) rest = None"
    by (cases "parse_rule n i raw") (auto split: option.splits)
  show ?case
  proof (cases k)
    case 0
    with Cons.prems(3) r show ?thesis by simp
  next
    case (Suc j)
    with Cons.prems have "j < length rest"
      and "parse_rule n (i + 1 + int j) (rest ! j) = Inr (Some ins)"
      by (simp_all add: add.commute add.left_commute)
    from Cons.IH [OF fe this] r show ?thesis
      by (cases r) simp_all
  qed
qed

lemma first_error_index:
  "first_error n i ls = Some (k, e) \<Longrightarrow>
     k < length ls \<and> parse_rule n (i + int k) (ls ! k) = Inl e
     \<and> (\<forall>j<k. \<exists>r. parse_rule n (i + int j) (ls ! j) = Inr r)
     \<and> rules_of n i (take k ls) = rules_of n i ls"
proof (induction ls arbitrary: i k)
  case Nil
  then show ?case by simp
next
  case (Cons raw rest)
  show ?case
  proof (cases "parse_rule n i raw")
    case (Inl e')
    with Cons.prems show ?thesis by simp
  next
    case (Inr r)
    with Cons.prems obtain k' where k: "k = Suc k'"
      and fe: "first_error n (i + 1) rest = Some (k', e)"
      by (auto split: option.splits)
    note ih = Cons.IH [OF fe]
    have "\<exists>r'. parse_rule n (i + int j) ((raw # rest) ! j) = Inr r'" if "j < k" for j
    proof (cases j)
      case 0
      with Inr show ?thesis by simp
    next
      case (Suc j')
      with that k have "j' < k'" by simp
      with ih have "\<exists>r'. parse_rule n (i + 1 + int j') (rest ! j') = Inr r'" by blast
      with Suc show ?thesis by (simp add: add.commute add.left_commute)
    qed
    moreover have "rules_of n i (take k (raw # rest)) = rules_of n i (raw # rest)"
      using ih Inr k by (cases r) simp_all
    moreover have "k < length (raw # rest) \<and> parse_rule n (i + int k) ((raw # rest) ! k) = Inl e"
      using ih k by (simp add: add.commute add.left_commute)
    ultimately show ?thesis by blast
  qed
qed

lemma first_error_take:
  "first_error n i ls = Some (k, e) \<Longrightarrow> first_error n i (take k ls) = None"
proof (induction ls arbitrary: i k)
  case Nil
  then show ?case by simp
next
  case (Cons raw rest)
  show ?case
  proof (cases "parse_rule n i raw")
    case (Inl e')
    with Cons.prems show ?thesis by simp
  next
    case (Inr r)
    with Cons.prems obtain k' where k: "k = Suc k'"
      and fe: "first_error n (i + 1) rest = Some (k', e)"
      by (auto split: option.splits)
    from Cons.IH [OF fe] Inr k show ?thesis by simp
  qed
qed

lemma add_other_map:
  "add p ins = (e, p') \<Longrightarrow>
     (p_tapes p = 1 \<longrightarrow> map_2 p' = map_2 p) \<and> (p_tapes p \<noteq> 1 \<longrightarrow> map_1 p' = map_1 p)"
  by (auto simp: add_def setdefault_def Let_def
      split: option.splits list.splits prod.splits if_splits)

lemma add_all_other_map:
  "add_all p xs = (e, p') \<Longrightarrow>
     (p_tapes p = 1 \<longrightarrow> map_2 p' = map_2 p) \<and> (p_tapes p \<noteq> 1 \<longrightarrow> map_1 p' = map_1 p)"
proof (induction xs arbitrary: p)
  case Nil
  then show ?case by simp
next
  case (Cons x xs)
  obtain e1 q where q: "add p x = (e1, q)"
    by (cases "add p x")
  note a = add_other_map [OF q] add_tapes [OF q]
  show ?case
  proof (cases e1)
    case None
    with q Cons.prems have "add_all q xs = (e, p')" by simp
    from Cons.IH [OF this] a show ?thesis by simp
  next
    case (Some e')
    with q Cons.prems have "p' = q" by simp
    with a show ?thesis by simp
  qed
qed

lemma parse_from_text_add_all:
  "add_all (clear (p\<lparr>source_text := src\<rparr>)) (rules_of (p_tapes p) 0 (splitlines src))
     = (None, snd (parse_from_text p src))
   \<and> fst (parse_from_text p src) = map_option snd (first_error (p_tapes p) 0 (splitlines src))"
proof -
  have c: "(clear p)\<lparr>source_text := src\<rparr> = clear (p\<lparr>source_text := src\<rparr>)"
    by (simp add: clear_def)
  have t: "p_tapes (clear (p\<lparr>source_text := src\<rparr>)) = p_tapes p"
    by (simp add: clear_def)
  from parse_lines_add_all [of "clear (p\<lparr>source_text := src\<rparr>)" 0 "splitlines src"]
  show ?thesis
    by (simp add: parse_from_text_def c t prod_eq_iff)
qed

lemma malformed_iff: "malformed n raw = (\<exists>e. parse_rule n i raw = Inl e)"
  by (auto simp: malformed_def parse_rule_def Let_def)

lemma first_error_exists:
  "k < length ls \<Longrightarrow> parse_rule n (i + int k) (ls ! k) = Inl e' \<Longrightarrow>
     \<exists>k0 e. k0 \<le> k \<and> first_error n i ls = Some (k0, e)"
proof (induction ls arbitrary: i k)
  case Nil
  then show ?case by simp
next
  case (Cons raw rest)
  show ?case
  proof (cases "parse_rule n i raw")
    case (Inl e)
    then show ?thesis by simp
  next
    case (Inr r)
    with Cons.prems obtain j where j: "k = Suc j"
      by (cases k) auto
    with Cons.prems have "j < length rest"
      and "parse_rule n (i + 1 + int j) (rest ! j) = Inl e'"
      by (simp_all add: add.commute add.left_commute)
    from Cons.IH [OF this] obtain k0 e where "k0 \<le> j"
      and "first_error n (i + 1) rest = Some (k0, e)"
      by blast
    with Inr j show ?thesis by simp
  qed
qed

lemma parse_first_error:
  assumes fe: "first_error (p_tapes p) 0 (splitlines src) = Some (k, e)"
  shows "k < length (splitlines src)
     \<and> (\<exists>msg. e = parse_error (int k) msg)
     \<and> parse_rule (p_tapes p) (int k) (splitlines src ! k) = Inl e
     \<and> (\<forall>j<k. \<exists>r. parse_rule (p_tapes p) (int j) (splitlines src ! j) = Inr r)
     \<and> fst (parse_from_text p src) = Some e
     \<and> parse_lines ((clear p)\<lparr>source_text := src\<rparr>) 0 (take k (splitlines src))
          = (None, snd (parse_from_text p src))
     \<and> add_all (clear (p\<lparr>source_text := src\<rparr>))
          (rules_of (p_tapes p) 0 (take k (splitlines src)))
          = (None, snd (parse_from_text p src))"
proof -
  let ?ls = "splitlines src" and ?n = "p_tapes p"
  note pa = parse_from_text_add_all [where p = p and src = src]
  note ix = first_error_index [OF fe]
  from ix obtain msg where msg: "e = parse_error (int k) msg"
    using parse_rule_error [of ?n "int k" "?ls ! k" e] by auto
  have r: "fst (parse_from_text p src) = Some e"
    using pa fe by simp
  have aa: "add_all (clear (p\<lparr>source_text := src\<rparr>)) (rules_of ?n 0 (take k ?ls))
              = (None, snd (parse_from_text p src))"
    using pa ix by simp
  have c: "(clear p)\<lparr>source_text := src\<rparr> = clear (p\<lparr>source_text := src\<rparr>)"
    by (simp add: clear_def)
  have t: "p_tapes (clear (p\<lparr>source_text := src\<rparr>)) = ?n"
    by (simp add: clear_def)
  have pl: "parse_lines ((clear p)\<lparr>source_text := src\<rparr>) 0 (take k ?ls)
              = (None, snd (parse_from_text p src))"
    using parse_lines_add_all [of "clear (p\<lparr>source_text := src\<rparr>)" 0 "take k ?ls"]
      first_error_take [OF fe] aa
    by (simp add: c t)
  from ix msg r aa pl show ?thesis
    by auto
qed

text \<open>
  Claim C4, as the code has it.  \<open>parse_from_text\<close> clears the store and then registers
  the rules line by line.  When the text has a malformed rule line, the parse raises: the
  error is the one of the first malformed line, with that line's number (index + 1) in
  the message, and the store is left as parsing the lines before that one alone leaves
  it, with every rule of an earlier line registered.  Conversely a parse that raises
  raises for such a line, and a text with no malformed line is parsed without error.
\<close>

theorem parse_error_keeps_earlier_rules:
  "(k < length (splitlines src) \<and> malformed (p_tapes p) (splitlines src ! k) \<longrightarrow>
      (\<exists>k0 msg. k0 \<le> k \<and> malformed (p_tapes p) (splitlines src ! k0)
         \<and> (\<forall>j<k0. \<not> malformed (p_tapes p) (splitlines src ! j))
         \<and> fst (parse_from_text p src) = Some (parse_error (int k0) msg)
         \<and> parse_rule (p_tapes p) (int k0) (splitlines src ! k0) = Inl (parse_error (int k0) msg)
         \<and> parse_lines ((clear p)\<lparr>source_text := src\<rparr>) 0 (take k0 (splitlines src))
              = (None, snd (parse_from_text p src))
         \<and> add_all (clear (p\<lparr>source_text := src\<rparr>))
              (rules_of (p_tapes p) 0 (take k0 (splitlines src)))
              = (None, snd (parse_from_text p src))))
   \<and> (parse_from_text p src = (Some e, p') \<longrightarrow>
      (\<exists>k msg. k < length (splitlines src)
         \<and> malformed (p_tapes p) (splitlines src ! k)
         \<and> e = parse_error (int k) msg
         \<and> parse_rule (p_tapes p) (int k) (splitlines src ! k) = Inl e
         \<and> (\<forall>j<k. \<exists>r. parse_rule (p_tapes p) (int j) (splitlines src ! j) = Inr r)
         \<and> parse_lines ((clear p)\<lparr>source_text := src\<rparr>) 0 (take k (splitlines src)) = (None, p')
         \<and> add_all (clear (p\<lparr>source_text := src\<rparr>))
              (rules_of (p_tapes p) 0 (take k (splitlines src))) = (None, p')))
   \<and> ((\<forall>j<length (splitlines src). \<not> malformed (p_tapes p) (splitlines src ! j)) \<longrightarrow>
        fst (parse_from_text p src) = None)"
proof -
  let ?ls = "splitlines src" and ?n = "p_tapes p"
  note pa = parse_from_text_add_all [where p = p and src = src]
  have a: "\<exists>k0 msg. k0 \<le> k \<and> malformed ?n (?ls ! k0)
         \<and> (\<forall>j<k0. \<not> malformed ?n (?ls ! j))
         \<and> fst (parse_from_text p src) = Some (parse_error (int k0) msg)
         \<and> parse_rule ?n (int k0) (?ls ! k0) = Inl (parse_error (int k0) msg)
         \<and> parse_lines ((clear p)\<lparr>source_text := src\<rparr>) 0 (take k0 ?ls)
              = (None, snd (parse_from_text p src))
         \<and> add_all (clear (p\<lparr>source_text := src\<rparr>)) (rules_of ?n 0 (take k0 ?ls))
              = (None, snd (parse_from_text p src))"
    if k: "k < length ?ls" and m: "malformed ?n (?ls ! k)"
  proof -
    from m obtain e' where "parse_rule ?n (0 + int k) (?ls ! k) = Inl e'"
      using malformed_iff [of ?n "?ls ! k" "int k"] by auto
    from first_error_exists [OF k this] obtain k0 e0 where k0: "k0 \<le> k"
      and fe: "first_error ?n 0 ?ls = Some (k0, e0)"
      by blast
    note f = parse_first_error [OF fe]
    from f obtain msg where msg: "e0 = parse_error (int k0) msg"
      by blast
    have m0: "malformed ?n (?ls ! k0)"
      using f malformed_iff [of ?n "?ls ! k0" "int k0"] by blast
    have nm: "\<not> malformed ?n (?ls ! j)" if "j < k0" for j
    proof -
      from f that obtain r where "parse_rule ?n (int j) (?ls ! j) = Inr r"
        by blast
      then show ?thesis
        using malformed_iff [of ?n "?ls ! j" "int j"] by simp
    qed
    from k0 m0 nm f msg show ?thesis
      by blast
  qed
  have b: "\<exists>k msg. k < length ?ls \<and> malformed ?n (?ls ! k)
         \<and> e = parse_error (int k) msg
         \<and> parse_rule ?n (int k) (?ls ! k) = Inl e
         \<and> (\<forall>j<k. \<exists>r. parse_rule ?n (int j) (?ls ! j) = Inr r)
         \<and> parse_lines ((clear p)\<lparr>source_text := src\<rparr>) 0 (take k ?ls) = (None, p')
         \<and> add_all (clear (p\<lparr>source_text := src\<rparr>)) (rules_of ?n 0 (take k ?ls)) = (None, p')"
    if raised: "parse_from_text p src = (Some e, p')"
  proof -
    from pa raised have "map_option snd (first_error ?n 0 ?ls) = Some e"
      by simp
    then obtain k where fe: "first_error ?n 0 ?ls = Some (k, e)"
      by (cases "first_error ?n 0 ?ls") auto
    note f = parse_first_error [OF fe]
    have m0: "malformed ?n (?ls ! k)"
      using f malformed_iff [of ?n "?ls ! k" "int k"] by blast
    from raised have "snd (parse_from_text p src) = p'"
      by simp
    with f m0 show ?thesis
      by blast
  qed
  have c: "fst (parse_from_text p src) = None"
    if none: "\<forall>j<length ?ls. \<not> malformed ?n (?ls ! j)"
  proof (cases "first_error ?n 0 ?ls")
    case None
    with pa show ?thesis by simp
  next
    case (Some ke)
    obtain k0 e0 where "ke = (k0, e0)"
      by (cases ke)
    with Some have fe: "first_error ?n 0 ?ls = Some (k0, e0)"
      by simp
    note f = parse_first_error [OF fe]
    have "malformed ?n (?ls ! k0)"
      using f malformed_iff [of ?n "?ls ! k0" "int k0"] by blast
    with f none show ?thesis
      by blast
  qed
  from a b c show ?thesis
    by blast
qed

theorem parse_error_keeps_earlier_rules_witness:
  "1 < length (splitlines partial_program)
   \<and> malformed (p_tapes Program_1) (splitlines partial_program ! 1)
   \<and> malformed (p_tapes Program_1) (splitlines bad_symbol_program ! 1)
   \<and> malformed (p_tapes Program_1) (splitlines bad_move_program ! 1)
   \<and> (\<exists>k0 msg. k0 \<le> 1
        \<and> fst (parse_from_text Program_1 partial_program) = Some (parse_error (int k0) msg)
        \<and> add_all (clear (Program_1\<lparr>source_text := partial_program\<rparr>))
             (rules_of (p_tapes Program_1) 0 (take k0 (splitlines partial_program)))
            = (None, snd (parse_from_text Program_1 partial_program)))
   \<and> fst (parse_from_text Program_1 partial_program)
        = Some (parse_error 1 ''expected 5 or 6 tokens for 1-tape rule'')
   \<and> get_1 (snd (parse_from_text Program_1 partial_program)) ''0'' ''0'' = [first_scan_rule]
   \<and> fst (parse_from_text Program_1 bad_symbol_program)
        = Some (parse_error 1 ''symbols must be single characters'')
   \<and> get_1 (snd (parse_from_text Program_1 bad_symbol_program)) ''0'' ''0'' = [first_scan_rule]
   \<and> fst (parse_from_text Program_1 bad_move_program)
        = Some (parse_error 1 ''direction must be l, r, or *'')
   \<and> get_1 (snd (parse_from_text Program_1 bad_move_program)) ''0'' ''0'' = [first_scan_rule]
   \<and> (\<exists>k msg. k < length (splitlines partial_program)
        \<and> parse_error 1 ''expected 5 or 6 tokens for 1-tape rule'' = parse_error (int k) msg
        \<and> add_all (clear (Program_1\<lparr>source_text := partial_program\<rparr>))
             (rules_of (p_tapes Program_1) 0 (take k (splitlines partial_program)))
            = (None, snd (parse_from_text Program_1 partial_program)))
   \<and> fst (parse_from_text Program_1 scan_program) = None"
proof -
  have k: "1 < length (splitlines partial_program)"
    by code_simp
  have m1: "malformed (p_tapes Program_1) (splitlines partial_program ! 1)"
    by code_simp
  have m2: "malformed (p_tapes Program_1) (splitlines bad_symbol_program ! 1)"
    by code_simp
  have m3: "malformed (p_tapes Program_1) (splitlines bad_move_program ! 1)"
    by code_simp
  have r: "fst (parse_from_text Program_1 partial_program)
             = Some (parse_error 1 ''expected 5 or 6 tokens for 1-tape rule'')"
    by code_simp
  have h: "parse_from_text Program_1 partial_program
     = (Some (parse_error 1 ''expected 5 or 6 tokens for 1-tape rule''),
        snd (parse_from_text Program_1 partial_program))"
    using r by (simp add: prod_eq_iff)
  have g: "get_1 (snd (parse_from_text Program_1 partial_program)) ''0'' ''0'' = [first_scan_rule]
     \<and> fst (parse_from_text Program_1 bad_symbol_program)
          = Some (parse_error 1 ''symbols must be single characters'')
     \<and> get_1 (snd (parse_from_text Program_1 bad_symbol_program)) ''0'' ''0'' = [first_scan_rule]
     \<and> fst (parse_from_text Program_1 bad_move_program)
          = Some (parse_error 1 ''direction must be l, r, or *'')
     \<and> get_1 (snd (parse_from_text Program_1 bad_move_program)) ''0'' ''0'' = [first_scan_rule]"
    by code_simp
  have ok: "\<forall>j<length (splitlines scan_program).
              \<not> malformed (p_tapes Program_1) (splitlines scan_program ! j)"
  proof (intro allI impI)
    fix j
    assume j: "j < length (splitlines scan_program)"
    have len: "length (splitlines scan_program) = 3"
      by code_simp
    have l0: "\<not> malformed (p_tapes Program_1) (splitlines scan_program ! 0)"
      by code_simp
    have l1: "\<not> malformed (p_tapes Program_1) (splitlines scan_program ! 1)"
      by code_simp
    have l2: "\<not> malformed (p_tapes Program_1) (splitlines scan_program ! 2)"
      by code_simp
    from j len have "j = 0 \<or> j = 1 \<or> j = 2"
      by auto
    with l0 l1 l2 show "\<not> malformed (p_tapes Program_1) (splitlines scan_program ! j)"
      by auto
  qed
  note t1 = parse_error_keeps_earlier_rules [where p = Program_1 and src = partial_program
      and k = 1 and e = "parse_error 1 ''expected 5 or 6 tokens for 1-tape rule''"
      and p' = "snd (parse_from_text Program_1 partial_program)"]
  note t2 = parse_error_keeps_earlier_rules [where p = Program_1 and src = scan_program]
  from t1 k m1 have a: "\<exists>k0 msg. k0 \<le> 1
        \<and> fst (parse_from_text Program_1 partial_program) = Some (parse_error (int k0) msg)
        \<and> add_all (clear (Program_1\<lparr>source_text := partial_program\<rparr>))
             (rules_of (p_tapes Program_1) 0 (take k0 (splitlines partial_program)))
            = (None, snd (parse_from_text Program_1 partial_program))"
    by blast
  from t1 h have b: "\<exists>k msg. k < length (splitlines partial_program)
        \<and> parse_error 1 ''expected 5 or 6 tokens for 1-tape rule'' = parse_error (int k) msg
        \<and> add_all (clear (Program_1\<lparr>source_text := partial_program\<rparr>))
             (rules_of (p_tapes Program_1) 0 (take k (splitlines partial_program)))
            = (None, snd (parse_from_text Program_1 partial_program))"
    by blast
  from t2 ok have c: "fst (parse_from_text Program_1 scan_program) = None"
    by blast
  from k m1 m2 m3 a r g b c show ?thesis
    by blast
qed

text \<open>
  The claim C4 as stated fails on a rule line followed by a malformed line: the parse
  raises for line 2, and the rule of line 1 stays in the store, where a lookup finds it.
\<close>

theorem parse_error_partial_store:
  "fst (parse_from_text Program_1 partial_program)
     = Some (TMParseError ''Line 2: expected 5 or 6 tokens for 1-tape rule'')
   \<and> map_1 (snd (parse_from_text Program_1 partial_program))
     = [(''0'', [(''0'', [first_scan_rule])])]
   \<and> get_1 (snd (parse_from_text Program_1 partial_program)) ''0'' ''0'' = [first_scan_rule]"
  by code_simp

text \<open>
  Claim C9, as the code has it.  The line-number field of an instruction is the index of
  its line in the text counted from 0, one less than the 1-based line number (the
  messages print the field plus one).  After \<open>parse_from_text\<close>, whether it raised or
  not, every instruction in the store was built from a line of the text and its field
  is the index of that line; and when the parse did not raise, the instruction built
  from the rule line at index \<open>k\<close> is in the store with the field equal to \<open>k\<close>.
\<close>

theorem parsed_line_no_is_index:
  assumes "parse_from_text p src = (r, p')"
  shows "((lookup_1 (map_1 p') st sy = Some l \<or> lookup_2 (map_2 p') st k2 = Some l)
            \<and> ins \<in> set l \<longrightarrow>
          (\<exists>k<length (splitlines src).
             parse_rule (p_tapes p) (int k) (splitlines src ! k) = Inr (Some ins)
             \<and> line_no ins = int k))
    \<and> (r = None \<and> k < length (splitlines src)
          \<and> parse_rule (p_tapes p) (int k) (splitlines src ! k) = Inr (Some ins') \<longrightarrow>
        line_no ins' = int k \<and> stored_in p' ins')"
proof -
  let ?ls = "splitlines src" and ?n = "p_tapes p" and ?p0 = "p\<lparr>source_text := src\<rparr>"
  note pa = parse_from_text_add_all [where p = p and src = src]
  from pa assms have aa: "add_all (clear ?p0) (rules_of ?n 0 ?ls) = (None, p')"
    and fe: "r = map_option snd (first_error ?n 0 ?ls)"
    by simp_all
  have n0: "p_tapes ?p0 = ?n"
    by simp
  have n': "p_tapes p' = ?n"
  proof -
    have "p_tapes q' = p_tapes q" if "add_all q ys = (e, q')" for q ys e q'
      using that
      by (induction ys arbitrary: q) (auto split: prod.splits option.splits dest: add_tapes)
    from this [OF aa] show ?thesis
      by (simp add: clear_def)
  qed
  have from_line: "\<exists>k<length ?ls. parse_rule ?n (int k) (?ls ! k) = Inr (Some ins)
      \<and> line_no ins = int k" if "ins \<in> set (rules_of ?n 0 ?ls)"
  proof -
    from rules_of_index [OF that] obtain k where
      k: "k < length ?ls" "parse_rule ?n (int k) (?ls ! k) = Inr (Some ins)"
      by auto
    with parse_rule_line_no [OF k(2)] show ?thesis
      by blast
  qed
  have from_store: "ins \<in> set (rules_of ?n 0 ?ls)"
    if "lookup_1 (map_1 p') st sy = Some l \<or> lookup_2 (map_2 p') st k2 = Some l"
      and "ins \<in> set l"
  proof (cases "?n = 1")
    case True
    then have "p_tapes (clear ?p0) = 1"
      by (simp add: clear_def)
    with add_all_other_map [OF aa] have "map_2 p' = []"
      by (simp add: clear_def)
    with that(1) have "lookup_1 (map_1 p') st sy = Some l"
      by (simp add: lookup_2_def)
    with cleared_lookup_1 [OF _ aa, of st sy] True n0
    have "l = registered_1 (rules_of ?n 0 ?ls) st sy"
      by (simp split: if_splits)
    with that(2) show ?thesis
      by (simp add: registered_1_def)
  next
    case False
    then have "p_tapes (clear ?p0) \<noteq> 1"
      by (simp add: clear_def)
    with add_all_other_map [OF aa] have "map_1 p' = []"
      by (simp add: clear_def)
    with that(1) have "lookup_2 (map_2 p') st k2 = Some l"
      by (simp add: lookup_1_def)
    with cleared_lookup_2 [OF _ aa, of st k2] False n0
    have "l = registered_2 (rules_of ?n 0 ?ls) st k2"
      by (simp split: if_splits)
    with that(2) show ?thesis
      by (simp add: registered_2_def)
  qed
  have to_store: "line_no ins' = int k \<and> stored_in p' ins'"
    if "r = None" and "k < length ?ls" and pr: "parse_rule ?n (int k) (?ls ! k) = Inr (Some ins')"
  proof -
    from that(1) fe have "first_error ?n 0 ?ls = None"
      by simp
    from rules_of_complete [OF this that(2), of ins'] pr
    have mem: "ins' \<in> set (rules_of ?n 0 ?ls)"
      by simp
    have "stored_in p' ins'"
    proof (cases "?n = 1")
      case True
      with parse_rule_read [OF pr] obtain a where a: "ins_read ins' = [a]"
        by auto
      from mem a have "ins' \<in> set (registered_1 (rules_of ?n 0 ?ls) (cur_state ins') a)"
        by (simp add: registered_1_def)
      with cleared_lookup_1 [OF _ aa, of "cur_state ins'" a] True n0 a n' show ?thesis
        by (auto simp: stored_in_def split: if_splits)
    next
      case False
      with parse_rule_read [OF pr] obtain a b where a: "ins_read ins' = [a, b]"
        by auto
      from mem a have "ins' \<in> set (registered_2 (rules_of ?n 0 ?ls) (cur_state ins') (a, b))"
        by (simp add: registered_2_def)
      with cleared_lookup_2 [OF _ aa, of "cur_state ins'" "(a, b)"] False n0 a n' show ?thesis
        by (auto simp: stored_in_def split: if_splits)
    qed
    with parse_rule_line_no [OF pr] show ?thesis
      by simp
  qed
  from from_line from_store to_store show ?thesis
    by blast
qed

theorem parsed_line_no_is_index_witness:
  "parse_from_text Program_1 scan_program = (None, scan_store)
   \<and> lookup_1 (map_1 scan_store) ''0'' ''1'' = Some [scan_rules ! 1]
   \<and> (\<exists>k<length (splitlines scan_program).
         parse_rule (p_tapes Program_1) (int k) (splitlines scan_program ! k)
           = Inr (Some (scan_rules ! 1))
         \<and> line_no (scan_rules ! 1) = int k)
   \<and> 2 < length (splitlines scan_program)
   \<and> parse_rule (p_tapes Program_1) (int 2) (splitlines scan_program ! 2)
        = Inr (Some (scan_rules ! 2))
   \<and> line_no (scan_rules ! 2) = 2
   \<and> stored_in scan_store (scan_rules ! 2)"
proof -
  have h: "parse_from_text Program_1 scan_program = (None, scan_store)"
    by code_simp
  have a: "lookup_1 (map_1 scan_store) ''0'' ''1'' = Some [scan_rules ! 1]"
    by code_simp
  have b: "2 < length (splitlines scan_program)"
    by code_simp
  have c: "parse_rule (p_tapes Program_1) (int 2) (splitlines scan_program ! 2)
        = Inr (Some (scan_rules ! 2))"
    by code_simp
  show ?thesis
    using
      parsed_line_no_is_index [OF h, where st = "''0''" and sy = "''1''"
        and l = "[scan_rules ! 1]" and ins = "scan_rules ! 1" and k = 2
        and ins' = "scan_rules ! 2"]
      h a b c
    by simp
qed

text \<open>
  The claim C9 as stated fails on the first line of a text: the rule \<open>0 0 0 r 0\<close> on
  line 1 gives an instruction whose line-number field is 0, not 1.
\<close>

theorem first_line_has_line_no_zero:
  "splitlines scan_program ! 0 = ''0 0 0 r 0''
   \<and> parse_rule 1 0 (splitlines scan_program ! 0) = Inr (Some first_scan_rule)
   \<and> get_1 scan_store ''0'' ''0'' = [first_scan_rule]
   \<and> line_no first_scan_rule = 0
   \<and> line_no first_scan_rule \<noteq> 1"
  by code_simp

lemma parse_error_eq [simp]: "(parse_error i a = parse_error i b) = (a = b)"
  by (simp add: parse_error_def)

text \<open>
  Claim C6, as the code has it.  For a rule line (not a directive, not empty after the
  comment is removed), the token-count error is raised exactly when a 1-tape line has
  neither 5 nor 6 tokens, and a 2-tape line neither 8 nor 9.  What the 6th (9th) token
  is does not matter for that: an instruction that is built has the breakpoint flag
  exactly when there is a 6th (9th) token and it is \<open>!\<close>, and a line of 6 (9) tokens
  with one-character symbols and valid moves is accepted whatever its last token is.
\<close>

theorem token_count_shapes:
  assumes "\<not> directive_match (strip raw)" and "strip_comment raw \<noteq> []"
    and "toks = str_split (strip_comment raw)"
  shows "((parse_rule 1 i raw = Inl (parse_error i ''expected 5 or 6 tokens for 1-tape rule''))
            = (length toks \<noteq> 5 \<and> length toks \<noteq> 6))
    \<and> (n \<noteq> 1 \<longrightarrow>
         (parse_rule n i raw = Inl (parse_error i ''expected 8 or 9 tokens for 2-tape rule''))
            = (length toks \<noteq> 8 \<and> length toks \<noteq> 9))
    \<and> (parse_rule n i raw = Inr (Some ins) \<longrightarrow>
         breakpoint ins = (if n = 1 then length toks = 6 \<and> toks ! 5 = ''!''
                           else length toks = 9 \<and> toks ! 8 = ''!''))
    \<and> (length toks = 6 \<and> length (toks ! 1) = 1 \<and> length (toks ! 2) = 1
          \<and> lower (toks ! 3) \<in> set [''l'', ''r'', ''*''] \<longrightarrow>
         (\<exists>x. parse_rule 1 i raw = Inr (Some x) \<and> breakpoint x = (toks ! 5 = ''!'')))
    \<and> (n \<noteq> 1 \<and> length toks = 9
          \<and> length (toks ! 1) = 1 \<and> length (toks ! 2) = 1
          \<and> length (toks ! 3) = 1 \<and> length (toks ! 4) = 1
          \<and> lower (toks ! 5) \<in> set [''l'', ''r'', ''*'']
          \<and> lower (toks ! 6) \<in> set [''l'', ''r'', ''*''] \<longrightarrow>
         (\<exists>x. parse_rule n i raw = Inr (Some x) \<and> breakpoint x = (toks ! 8 = ''!'')))"
proof -
  have a: "(parse_rule 1 i raw = Inl (parse_error i ''expected 5 or 6 tokens for 1-tape rule''))
            = (length toks \<noteq> 5 \<and> length toks \<noteq> 6)"
    using assms by (simp add: parse_rule_def Let_def)
  have b: "(parse_rule n i raw = Inl (parse_error i ''expected 8 or 9 tokens for 2-tape rule''))
            = (length toks \<noteq> 8 \<and> length toks \<noteq> 9)" if "n \<noteq> 1"
    using assms that by (simp add: parse_rule_def Let_def)
  have c: "breakpoint ins = (if n = 1 then length toks = 6 \<and> toks ! 5 = ''!''
                           else length toks = 9 \<and> toks ! 8 = ''!'')"
    if "parse_rule n i raw = Inr (Some ins)"
    using assms that by (auto simp: parse_rule_def Let_def split: if_splits)
  have d: "\<exists>x. parse_rule 1 i raw = Inr (Some x) \<and> breakpoint x = (toks ! 5 = ''!'')"
    if "length toks = 6" "length (toks ! 1) = 1" "length (toks ! 2) = 1"
      "lower (toks ! 3) \<in> set [''l'', ''r'', ''*'']"
    using assms that by (simp add: parse_rule_def Let_def)
  have e: "\<exists>x. parse_rule n i raw = Inr (Some x) \<and> breakpoint x = (toks ! 8 = ''!'')"
    if "n \<noteq> 1" "length toks = 9" "length (toks ! 1) = 1" "length (toks ! 2) = 1"
      "length (toks ! 3) = 1" "length (toks ! 4) = 1"
      "lower (toks ! 5) \<in> set [''l'', ''r'', ''*'']"
      "lower (toks ! 6) \<in> set [''l'', ''r'', ''*'']"
    using assms that by (simp add: parse_rule_def Let_def)
  from a b c d e show ?thesis
    by blast
qed

theorem token_count_shapes_witness:
  "\<not> directive_match (strip six_token_line) \<and> strip_comment six_token_line \<noteq> []
   \<and> str_split (strip_comment six_token_line) = [''0'', ''0'', ''0'', ''r'', ''0'', ''x'']
   \<and> parse_rule 1 0 six_token_line
        \<noteq> Inl (parse_error 0 ''expected 5 or 6 tokens for 1-tape rule'')
   \<and> (\<exists>x. parse_rule 1 0 six_token_line = Inr (Some x) \<and> breakpoint x = False)
   \<and> \<not> directive_match (strip nine_token_line) \<and> strip_comment nine_token_line \<noteq> []
   \<and> str_split (strip_comment nine_token_line)
        = [''q'', ''a'', ''b'', ''x'', ''y'', ''l'', ''r'', ''q'', ''x'']
   \<and> parse_rule 2 0 nine_token_line
        \<noteq> Inl (parse_error 0 ''expected 8 or 9 tokens for 2-tape rule'')
   \<and> (\<exists>x. parse_rule 2 0 nine_token_line = Inr (Some x) \<and> breakpoint x = False)"
proof -
  have h1: "\<not> directive_match (strip six_token_line)"
    by code_simp
  have h2: "strip_comment six_token_line \<noteq> []"
    by code_simp
  have h3: "[''0'', ''0'', ''0'', ''r'', ''0'', ''x''] = str_split (strip_comment six_token_line)"
    by code_simp
  have g1: "\<not> directive_match (strip nine_token_line)"
    by code_simp
  have g2: "strip_comment nine_token_line \<noteq> []"
    by code_simp
  have g3: "[''q'', ''a'', ''b'', ''x'', ''y'', ''l'', ''r'', ''q'', ''x'']
              = str_split (strip_comment nine_token_line)"
    by code_simp
  have lw: "lower ''r'' = ''r'' \<and> lower ''l'' = ''l''"
    by code_simp
  show ?thesis
    using token_count_shapes [OF h1 h2 h3, of 0 1]
      token_count_shapes [OF g1 g2 g3, of 0 2]
      h1 h2 h3 [symmetric] g1 g2 g3 [symmetric] lw
    by simp
qed

text \<open>
  The claim C6 as stated fails on a 1-tape line of 6 tokens and on a 2-tape line of 9
  tokens whose last token is \<open>x\<close>: both are accepted, and the instruction has no
  breakpoint.
\<close>

theorem extra_token_accepted:
  "str_split (strip_comment six_token_line) = [''0'', ''0'', ''0'', ''r'', ''0'', ''x'']
   \<and> parse_rule 1 0 six_token_line = Inr (Some first_scan_rule)
   \<and> fst (parse_from_text Program_1 six_token_line) = None
   \<and> get_1 (snd (parse_from_text Program_1 six_token_line)) ''0'' ''0'' = [first_scan_rule]
   \<and> breakpoint first_scan_rule = False
   \<and> str_split (strip_comment nine_token_line)
        = [''q'', ''a'', ''b'', ''x'', ''y'', ''l'', ''r'', ''q'', ''x'']
   \<and> parse_rule 2 0 nine_token_line
        = Inr (Some \<lparr>cur_state = ''q'', ins_read = [''a'', ''b''], ins_write = [''x'', ''y''],
                      ins_move = [''l'', ''r''], next_state = ''q'', breakpoint = False,
                      line_no = 0\<rparr>)
   \<and> fst (parse_from_text Program_2 nine_token_line) = None"
  by code_simp

section \<open>The lookup and the step of a 1-tape machine\<close>

lemma Tape_move_valid:
  "d \<in> set [''l'', ''r'', ''*''] \<Longrightarrow> fst (Tape_move t d) = None"
  by (auto simp: Tape_move_def Let_def MOVE_def lower_def lower_char_def)

lemma parse_rule_well_formed:
  assumes "parse_rule 1 i raw = Inr (Some x)"
  shows "ins_write x \<noteq> [] \<and> ins_move x \<noteq> [] \<and> fst (Tape_move t (hd (ins_move x))) = None"
proof -
  from assms have "ins_write x \<noteq> [] \<and> ins_move x \<noteq> []
      \<and> hd (ins_move x) \<in> set [''l'', ''r'', ''*'']"
    by (auto simp: parse_rule_def Let_def split: if_splits)
  with Tape_move_valid [of "hd (ins_move x)" t] show ?thesis
    by blast
qed

lemma first_nonempty_subset: "set (first_nonempty ts) \<subseteq> \<Union> (set ` set ts)"
  by (induction ts) auto

lemma get_1_from_registered:
  assumes "p_tapes p0 = 1" and "add_all (clear p0) xs = (None, p)"
  shows "set (get_1 p st sy) \<subseteq> set xs"
  using first_nonempty_subset
    [of "[registered_1 xs st sy, registered_1 xs st ''*'',
          registered_1 xs ''*'' sy, registered_1 xs ''*'' ''*'']"]
  by (auto simp: get_1_registered [OF assms] registered_1_def)

lemma step_head_1:
  assumes "prog m = Some p" and "p_tapes p = 1" and "tapes m = [t]" and "\<not> halted m"
    and "\<not> is_halt_state (state m)" and "get_1 p (state m) (Tape_read t) = ins # rest"
  shows "(ins_write ins \<noteq> [] \<and> ins_move ins \<noteq> []
          \<and> fst (Tape_move (Tape_write t (if hd (ins_write ins) = ''*'' then Tape_read t
                                            else hd (ins_write ins)))
                   (hd (ins_move ins))) = None \<longrightarrow>
          fst (step m) = Inr (Some ins)
          \<and> tapes (snd (step m)) =
              [snd (Tape_move (Tape_write t (if hd (ins_write ins) = ''*'' then Tape_read t
                                             else hd (ins_write ins)))
                      (hd (ins_move ins)))]
          \<and> state (snd (step m)) = (if next_state ins = ''*'' then state m else next_state ins)
          \<and> steps (snd (step m)) = steps m + 1)
    \<and> (ins_write ins = [] \<or> ins_move ins = []
          \<or> fst (Tape_move (Tape_write t (if hd (ins_write ins) = ''*'' then Tape_read t
                                            else hd (ins_write ins)))
                   (hd (ins_move ins))) \<noteq> None \<longrightarrow>
          (\<exists>e. fst (step m) = Inl e) \<and> state (snd (step m)) = state m
          \<and> steps (snd (step m)) = steps m)"
  using assms
  by (auto simp: step_def Let_def reads_def get_next_def hd_conv_nth
      split: option.splits sum.splits list.splits prod.splits if_splits)

text \<open>
  Claim C3.  Let the store of a 1-tape program be filled by any sequence \<open>xs\<close> of
  registrations after a \<open>clear\<close> (as \<open>parse_from_text\<close> does).  The lookup for
  (state, symbol) returns the first non-empty one of four lists, in this order: the
  instructions registered for (state, symbol), for (state, *), for (*, symbol), for
  (*, *), each list in the order of registration; it returns the empty list when all
  four are empty.  A step of a running machine with one tape, in a state that is not a
  halting label, applies the first instruction of the list returned for the current
  state and the symbol read, whatever else the list holds: it writes that instruction's
  symbol, moves the head as it says, takes its next state and counts one step.  It
  applies no other instruction; it raises instead only when that first instruction has
  no write symbol, no move or an invalid move, which no instruction built by the parser
  has.  When the list is empty, the step returns \<open>None\<close>.
\<close>

theorem get_1_tiers_first_registered:
  assumes "p_tapes p0 = 1" and "add_all (clear p0) xs = (None, p)"
  shows "get_1 p st sy =
           first_nonempty [registered_1 xs st sy, registered_1 xs st ''*'',
                           registered_1 xs ''*'' sy, registered_1 xs ''*'' ''*'']
    \<and> (prog m = Some p \<and> tapes m = [t] \<and> step m = (Inr (Some ins), m') \<longrightarrow>
          get_1 p (state m) (Tape_read t) \<noteq> [] \<and> ins = hd (get_1 p (state m) (Tape_read t))
          \<and> ins_write ins \<noteq> [] \<and> ins_move ins \<noteq> []
          \<and> Tape_move (Tape_write t (if hd (ins_write ins) = ''*'' then Tape_read t
                                      else hd (ins_write ins)))
               (hd (ins_move ins)) = (None, hd (tapes m'))
          \<and> length (tapes m') = 1
          \<and> state m' = (if next_state ins = ''*'' then state m else next_state ins)
          \<and> steps m' = steps m + 1)
    \<and> (prog m = Some p \<and> tapes m = [t] \<and> \<not> halted m \<and> \<not> is_halt_state (state m)
          \<and> get_1 p (state m) (Tape_read t) = [] \<longrightarrow> fst (step m) = Inr None)
    \<and> (prog m = Some p \<and> tapes m = [t] \<and> \<not> halted m \<and> \<not> is_halt_state (state m)
          \<and> get_1 p (state m) (Tape_read t) = hd_ins # rest
          \<and> ins_write hd_ins \<noteq> [] \<and> ins_move hd_ins \<noteq> []
          \<and> fst (Tape_move (Tape_write t (if hd (ins_write hd_ins) = ''*'' then Tape_read t
                                            else hd (ins_write hd_ins)))
                   (hd (ins_move hd_ins))) = None \<longrightarrow>
          fst (step m) = Inr (Some hd_ins)
          \<and> tapes (snd (step m)) =
              [snd (Tape_move (Tape_write t (if hd (ins_write hd_ins) = ''*'' then Tape_read t
                                             else hd (ins_write hd_ins)))
                      (hd (ins_move hd_ins)))]
          \<and> state (snd (step m))
              = (if next_state hd_ins = ''*'' then state m else next_state hd_ins)
          \<and> steps (snd (step m)) = steps m + 1)
    \<and> (prog m = Some p \<and> tapes m = [t] \<and> \<not> halted m \<and> \<not> is_halt_state (state m)
          \<and> get_1 p (state m) (Tape_read t) = hd_ins # rest
          \<and> (ins_write hd_ins = [] \<or> ins_move hd_ins = []
              \<or> fst (Tape_move (Tape_write t (if hd (ins_write hd_ins) = ''*'' then Tape_read t
                                                else hd (ins_write hd_ins)))
                       (hd (ins_move hd_ins))) \<noteq> None) \<longrightarrow>
          (\<exists>e. fst (step m) = Inl e) \<and> state (snd (step m)) = state m
          \<and> steps (snd (step m)) = steps m)
    \<and> ((\<forall>x\<in>set xs. \<exists>i raw. parse_rule 1 i raw = Inr (Some x))
          \<and> prog m = Some p \<and> tapes m = [t] \<and> \<not> halted m \<and> \<not> is_halt_state (state m)
          \<and> get_1 p (state m) (Tape_read t) = hd_ins # rest \<longrightarrow>
          fst (step m) = Inr (Some hd_ins)
          \<and> tapes (snd (step m)) =
              [snd (Tape_move (Tape_write t (if hd (ins_write hd_ins) = ''*'' then Tape_read t
                                             else hd (ins_write hd_ins)))
                      (hd (ins_move hd_ins)))]
          \<and> state (snd (step m))
              = (if next_state hd_ins = ''*'' then state m else next_state hd_ins)
          \<and> steps (snd (step m)) = steps m + 1)"
proof -
  have p1: "p_tapes p = 1"
  proof -
    have "p_tapes q' = p_tapes q" if "add_all q ys = (e, q')" for q ys e q'
      using that
      by (induction ys arbitrary: q) (auto split: prod.splits option.splits dest: add_tapes)
    from this [OF assms(2)] assms(1) show ?thesis
      by (simp add: clear_def)
  qed
  note c1 = get_1_registered [OF assms, of st sy]
  note c2 = step_applied_1 [of m ins m' p t, OF _ _ p1]
  note c3 = step_no_rule_1 [of m p t, OF _ p1]
  note c45 = step_head_1 [of m p t hd_ins rest, OF _ p1]
  have wf: "ins_write hd_ins \<noteq> [] \<and> ins_move hd_ins \<noteq> []
      \<and> fst (Tape_move (Tape_write t (if hd (ins_write hd_ins) = ''*'' then Tape_read t
                                        else hd (ins_write hd_ins)))
               (hd (ins_move hd_ins))) = None"
    if parsed: "\<forall>x\<in>set xs. \<exists>i raw. parse_rule 1 i raw = Inr (Some x)"
      and found: "get_1 p (state m) (Tape_read t) = hd_ins # rest"
  proof -
    from found get_1_from_registered [OF assms, of "state m" "Tape_read t"]
    have "hd_ins \<in> set xs"
      by auto
    with parsed obtain i raw where "parse_rule 1 i raw = Inr (Some hd_ins)"
      by blast
    from parse_rule_well_formed [OF this] show ?thesis
      by blast
  qed
  have c6: "fst (step m) = Inr (Some hd_ins)
          \<and> tapes (snd (step m)) =
              [snd (Tape_move (Tape_write t (if hd (ins_write hd_ins) = ''*'' then Tape_read t
                                             else hd (ins_write hd_ins)))
                      (hd (ins_move hd_ins)))]
          \<and> state (snd (step m))
              = (if next_state hd_ins = ''*'' then state m else next_state hd_ins)
          \<and> steps (snd (step m)) = steps m + 1"
    if "\<forall>x\<in>set xs. \<exists>i raw. parse_rule 1 i raw = Inr (Some x)"
      and "prog m = Some p" and "tapes m = [t]" and "\<not> halted m"
      and "\<not> is_halt_state (state m)"
      and "get_1 p (state m) (Tape_read t) = hd_ins # rest"
    using wf [OF that(1) that(6)] c45 [OF that(2) that(3) that(4) that(5) that(6)]
    by blast
  show ?thesis
    using c1 c2 c3 c45 c6 by blast
qed

text \<open>
  The theorem at three machines.  The scanning program on \<open>101\<close> applies the rule of its
  second line, the only one for (0, 1).  The same program on \<open>x\<close> finds no rule and
  returns \<open>None\<close>.  The program \<open>0 1 x r a\<close> / \<open>0 1 y l b\<close> has two rules for the key
  (0, 1): the lookup returns both in the order of their lines, and the step on the word
  \<open>1\<close> applies the first, writing \<open>x\<close>, moving right and entering \<open>a\<close>.
\<close>

theorem get_1_tiers_first_registered_witness:
  "p_tapes (Program_1\<lparr>source_text := scan_program\<rparr>) = 1
   \<and> add_all (clear (Program_1\<lparr>source_text := scan_program\<rparr>)) scan_rules = (None, scan_store)
   \<and> length scan_rules = 3
   \<and> get_1 scan_store ''0'' ''1'' = [scan_rules ! 1]
   \<and> prog scan_machine = Some scan_store
   \<and> tapes scan_machine = [load_leftmost (Tape_init BLANK) ''101'']
   \<and> Tape_read (load_leftmost (Tape_init BLANK) ''101'') = ''1''
   \<and> step scan_machine = (Inr (Some (scan_rules ! 1)), snd (step scan_machine))
   \<and> state (snd (step scan_machine)) = ''0''
   \<and> steps (snd (step scan_machine)) = 1
   \<and> prog stuck_machine = Some scan_store
   \<and> tapes stuck_machine = [load_leftmost (Tape_init BLANK) ''x'']
   \<and> get_1 scan_store (state stuck_machine) (Tape_read (load_leftmost (Tape_init BLANK) ''x'')) = []
   \<and> fst (step stuck_machine) = Inr None
   \<and> p_tapes (Program_1\<lparr>source_text := two_rule_program\<rparr>) = 1
   \<and> add_all (clear (Program_1\<lparr>source_text := two_rule_program\<rparr>)) two_rule_rules
        = (None, two_rule_store)
   \<and> length two_rule_rules = 2
   \<and> prog two_rule_machine = Some two_rule_store
   \<and> tapes two_rule_machine = [load_leftmost (Tape_init BLANK) ''1'']
   \<and> halted two_rule_machine = False
   \<and> is_halt_state (state two_rule_machine) = False
   \<and> get_1 two_rule_store (state two_rule_machine)
        (Tape_read (load_leftmost (Tape_init BLANK) ''1''))
        = [two_rule_rules ! 0, two_rule_rules ! 1]
   \<and> ins_write (two_rule_rules ! 0) = [''x''] \<and> ins_write (two_rule_rules ! 1) = [''y'']
   \<and> fst (step two_rule_machine) = Inr (Some (two_rule_rules ! 0))
   \<and> tapes (snd (step two_rule_machine)) = [\<lparr>blank = ''_'', cells = [(0, ''x'')], head = 1\<rparr>]
   \<and> state (snd (step two_rule_machine)) = ''a''
   \<and> steps (snd (step two_rule_machine)) = 1"
proof -
  have h1: "p_tapes (Program_1\<lparr>source_text := scan_program\<rparr>) = 1"
    by (simp add: Program_1_def)
  have h2: "add_all (clear (Program_1\<lparr>source_text := scan_program\<rparr>)) scan_rules
              = (None, scan_store)"
    by code_simp
  have m1: "prog scan_machine = Some scan_store"
    by code_simp
  have m2: "tapes scan_machine = [load_leftmost (Tape_init BLANK) ''101'']"
    by code_simp
  have m3: "fst (step scan_machine) = Inr (Some (scan_rules ! 1))"
    by code_simp
  have m4: "step scan_machine = (Inr (Some (scan_rules ! 1)), snd (step scan_machine))"
    using m3 by (simp add: prod_eq_iff)
  have s1: "prog stuck_machine = Some scan_store"
    by code_simp
  have s2: "tapes stuck_machine = [load_leftmost (Tape_init BLANK) ''x'']"
    by code_simp
  have s3: "halted stuck_machine = False \<and> is_halt_state (state stuck_machine) = False"
    by code_simp
  have s4: "get_1 scan_store (state stuck_machine)
              (Tape_read (load_leftmost (Tape_init BLANK) ''x'')) = []"
    by code_simp
  have r1: "first_nonempty [registered_1 scan_rules ''0'' ''1'', registered_1 scan_rules ''0'' ''*'',
              registered_1 scan_rules ''*'' ''1'', registered_1 scan_rules ''*'' ''*'']
            = [scan_rules ! 1]"
    by code_simp
  have r2: "length scan_rules = 3"
    by code_simp
  have r3: "Tape_read (load_leftmost (Tape_init BLANK) ''101'') = ''1''"
    by code_simp
  have r4: "next_state (scan_rules ! 1) = ''0'' \<and> state scan_machine = ''0''
            \<and> steps scan_machine = 0"
    by code_simp
  have scan: "get_1 scan_store ''0'' ''1'' = [scan_rules ! 1]
      \<and> state (snd (step scan_machine)) = ''0''
      \<and> steps (snd (step scan_machine)) = 1
      \<and> fst (step stuck_machine) = Inr None"
    using
      get_1_tiers_first_registered [OF h1 h2,
        where st = "''0''" and sy = "''1''" and m = scan_machine
          and t = "load_leftmost (Tape_init BLANK) ''101''"
          and ins = "scan_rules ! 1" and m' = "snd (step scan_machine)"]
      get_1_tiers_first_registered [OF h1 h2,
        where st = "''0''" and sy = "''1''" and m = stuck_machine
          and t = "load_leftmost (Tape_init BLANK) ''x''"
          and ins = "scan_rules ! 1" and m' = "snd (step scan_machine)"]
      h1 h2 m1 m2 m4 s1 s2 s3 s4 r1 r2 r3 r4
    by simp
  have g1: "p_tapes (Program_1\<lparr>source_text := two_rule_program\<rparr>) = 1"
    by (simp add: Program_1_def)
  have g2: "add_all (clear (Program_1\<lparr>source_text := two_rule_program\<rparr>)) two_rule_rules
              = (None, two_rule_store)"
    by code_simp
  have parsed: "\<forall>x\<in>set two_rule_rules. \<exists>i raw. parse_rule 1 i raw = Inr (Some x)"
    unfolding two_rule_rules_def by (blast dest: rules_of_index)
  have t1: "prog two_rule_machine = Some two_rule_store"
    by code_simp
  have t2: "tapes two_rule_machine = [load_leftmost (Tape_init BLANK) ''1'']"
    by code_simp
  have t3: "halted two_rule_machine = False \<and> is_halt_state (state two_rule_machine) = False"
    by code_simp
  have t4: "get_1 two_rule_store (state two_rule_machine)
              (Tape_read (load_leftmost (Tape_init BLANK) ''1''))
            = two_rule_rules ! 0 # [two_rule_rules ! 1]"
    by code_simp
  have t5: "length two_rule_rules = 2
      \<and> ins_write (two_rule_rules ! 0) = [''x''] \<and> ins_write (two_rule_rules ! 1) = [''y'']
      \<and> ins_move (two_rule_rules ! 0) = [''r'']
      \<and> next_state (two_rule_rules ! 0) = ''a''
      \<and> steps two_rule_machine = 0"
    by code_simp
  have t6: "snd (Tape_move (Tape_write (load_leftmost (Tape_init BLANK) ''1'') ''x'') ''r'')
            = \<lparr>blank = ''_'', cells = [(0, ''x'')], head = 1\<rparr>"
    by code_simp
  have two: "fst (step two_rule_machine) = Inr (Some (two_rule_rules ! 0))
      \<and> tapes (snd (step two_rule_machine)) = [\<lparr>blank = ''_'', cells = [(0, ''x'')], head = 1\<rparr>]
      \<and> state (snd (step two_rule_machine)) = ''a''
      \<and> steps (snd (step two_rule_machine)) = 1"
    using
      get_1_tiers_first_registered [OF g1 g2,
        where m = two_rule_machine
          and t = "load_leftmost (Tape_init BLANK) ''1''"
          and hd_ins = "two_rule_rules ! 0" and rest = "[two_rule_rules ! 1]"]
      parsed t1 t2 t3 t4 t5 t6
    by simp
  from scan two h1 h2 r2 m1 m2 r3 m4 s1 s2 s4 g1 g2 t1 t2 t3 t4 t5 show ?thesis
    by simp
qed

end
